theory Spec2Isabelle
  imports Complex_Main "HOL-Library.Char_ord" "HOL-Library.List_Lexorder"
begin

section \<open>The report generator of gdnts-ci: a shallow embedding\<close>

text \<open>
  The development follows \<^verbatim>\<open>reports/scripts/generate_reports.py\<close>.

  Modelling conventions.
  \<^item> Python \<^verbatim>\<open>int\<close> is \<^typ>\<open>int\<close>; \<^verbatim>\<open>//\<close> and \<^verbatim>\<open>%\<close> with a positive
    divisor are \<open>div\<close> and \<open>mod\<close> (both round towards minus infinity).
  \<^item> Python \<^verbatim>\<open>float\<close> and \<^verbatim>\<open>Decimal\<close> are \<^typ>\<open>real\<close>: arithmetic is exact,
    the rounding of IEEE-754 doubles and of the 28 digit decimal context, and the values
    NaN and infinity, are not part of the model.
  \<^item> Python \<^verbatim>\<open>str\<close> is \<^typ>\<open>string\<close>; the characters are those of ASCII, so
    \<^verbatim>\<open>\d\<close> is \<open>0\<close> ... \<open>9\<close> and \<^verbatim>\<open>\s\<close> is the white space of ASCII.
  \<^item> A \<^verbatim>\<open>dict\<close> is an association list in insertion order with distinct keys.
  \<^item> An exception is a value \<open>Inl e\<close> of a sum type.
\<close>

datatype py_error = ValueError

subsection \<open>Durations (\<^verbatim>\<open>parse_duration_to_seconds\<close>, \<^verbatim>\<open>seconds_to_duration_str\<close>)\<close>

definition is_digit :: "char \<Rightarrow> bool" where
  "is_digit c = (CHR ''0'' \<le> c \<and> c \<le> CHR ''9'')"

definition digit_value :: "char \<Rightarrow> int" where
  "digit_value c = int (of_char c) - 48"

definition digit_char :: "nat \<Rightarrow> char" where
  "digit_char d = char_of (48 + d)"

text \<open>
  The interpreter converts between \<^verbatim>\<open>int\<close> and \<^verbatim>\<open>str\<close> in base 10 only up to
  \<^verbatim>\<open>sys.get_int_max_str_digits()\<close> digits, 4300 unless it is configured otherwise, and
  raises \<^verbatim>\<open>ValueError\<close> beyond that, in both directions.
\<close>

definition int_max_str_digits :: nat where
  "int_max_str_digits = 4300"

text \<open>
  The decimal digits of an integer, with a minus sign for a negative one: what
  \<^verbatim>\<open>str(n)\<close> and an f-string give when they give a string.
\<close>

fun digits_of :: "nat \<Rightarrow> string" where
  "digits_of n = (if n < 10 then [digit_char n] else digits_of (n div 10) @ [digit_char (n mod 10)])"

declare digits_of.simps [simp del]

definition py_str :: "int \<Rightarrow> string" where
  "py_str i = (if i < 0 then CHR ''-'' # digits_of (nat (- i)) else digits_of (nat i))"

text \<open>
  \<^verbatim>\<open>f"{n}"\<close> with the limit: an integer of more digits than the limit is not converted.
  The duration formatter is modelled with it. The graph renderer prints layout
  constants, axis labels and stage targets with \<^const>\<open>py_str\<close>, the limit left out there.
\<close>

definition py_format_int :: "int \<Rightarrow> py_error + string" where
  "py_format_int n =
     (if int_max_str_digits < length (digits_of (nat \<bar>n\<bar>)) then Inl ValueError else Inr (py_str n))"

text \<open>
  \<^verbatim>\<open>int(s)\<close> for a string: the value of a non-empty run of digits, unless the run has
  more digits than the limit (leading zeros count), which raises. Every other string is
  answered by \<open>ValueError\<close> here; Python accepts a sign and surrounding white space as
  well, which no group of \<^verbatim>\<open>\d+\<close> contains.
\<close>

definition int_of_digits :: "string \<Rightarrow> int" where
  "int_of_digits ds = foldl (\<lambda>acc c. 10 * acc + digit_value c) 0 ds"

definition py_int_str :: "string \<Rightarrow> py_error + int" where
  "py_int_str s =
     (if s = [] \<or> \<not> list_all is_digit s then Inl ValueError
      else if int_max_str_digits < length s then Inl ValueError
      else Inr (int_of_digits s))"

text \<open>
  \<^verbatim>\<open>re.search(r"(\d+)u", s)\<close> for a unit letter \<open>u\<close>, answering group 1 of the match.
  At one start position the engine takes the longest run of digits and gives digits back
  one at a time until the next character is \<open>u\<close> (\<open>backtrack\<close>, for the group lengths
  \<open>k\<close>, \<open>k - 1\<close>, ..., \<open>1\<close>); the search tries the start positions from left to right.
\<close>

fun backtrack :: "char \<Rightarrow> string \<Rightarrow> nat \<Rightarrow> string option" where
  "backtrack u s 0 = None"
| "backtrack u s (Suc k) =
     (if Suc k < length s \<and> s ! Suc k = u then Some (take (Suc k) s) else backtrack u s k)"

definition match_here :: "char \<Rightarrow> string \<Rightarrow> string option" where
  "match_here u s = backtrack u s (length (takeWhile is_digit s))"

fun re_search :: "char \<Rightarrow> string \<Rightarrow> string option" where
  "re_search u [] = None"
| "re_search u (c # cs) =
     (case match_here u (c # cs) of Some g \<Rightarrow> Some g | None \<Rightarrow> re_search u cs)"

definition parse_duration_to_seconds :: "string \<Rightarrow> py_error + int" where
  "parse_duration_to_seconds duration_str =
     (case (case re_search CHR ''m'' duration_str of
              None \<Rightarrow> Inr 0
            | Some g \<Rightarrow> (case py_int_str g of Inl e \<Rightarrow> Inl e | Inr n \<Rightarrow> Inr (0 + n * 60))) of
        Inl e \<Rightarrow> Inl e
      | Inr total_seconds \<Rightarrow>
          (case re_search CHR ''s'' duration_str of
             None \<Rightarrow> Inr total_seconds
           | Some g \<Rightarrow> (case py_int_str g of Inl e \<Rightarrow> Inl e | Inr n \<Rightarrow> Inr (total_seconds + n))))"

definition seconds_to_duration_str :: "int \<Rightarrow> py_error + string" where
  "seconds_to_duration_str seconds =
     (let minutes = seconds div 60; remaining_seconds = seconds mod 60
      in if minutes > 0 \<and> remaining_seconds > 0
         then (case py_format_int minutes of
                 Inl e \<Rightarrow> Inl e
               | Inr m \<Rightarrow>
                   (case py_format_int remaining_seconds of
                      Inl e \<Rightarrow> Inl e
                    | Inr r \<Rightarrow> Inr (m @ ''m'' @ r @ ''s'')))
         else if minutes > 0
         then (case py_format_int minutes of Inl e \<Rightarrow> Inl e | Inr m \<Rightarrow> Inr (m @ ''m''))
         else (case py_format_int remaining_seconds of Inl e \<Rightarrow> Inl e | Inr r \<Rightarrow> Inr (r @ ''s'')))"

text \<open>
  A string has a component of unit \<open>u\<close> when a digit directly followed by \<open>u\<close> occurs
  in it, that is, when it has a substring of digits followed by the unit letter.
\<close>

fun has_component :: "char \<Rightarrow> string \<Rightarrow> bool" where
  "has_component u (a # b # cs) = ((is_digit a \<and> b = u) \<or> has_component u (b # cs))"
| "has_component u _ = False"

text \<open>
  The group the search for the unit \<open>u\<close> finds has more digits than the interpreter
  converts.
\<close>

definition group_too_long :: "char \<Rightarrow> string \<Rightarrow> bool" where
  "group_too_long u s =
     (case re_search u s of None \<Rightarrow> False | Some g \<Rightarrow> int_max_str_digits < length g)"

text \<open>One more nine than the interpreter converts.\<close>

definition long_digit_run :: string where
  "long_digit_run = replicate (Suc int_max_str_digits) CHR ''9''"

subsection \<open>Scalar load-test metrics (\<^verbatim>\<open>MetricsCollector.collect_k6_metrics\<close>)\<close>

type_synonym decimal = real

text \<open>\<^verbatim>\<open>int(x)\<close> of a float or a Decimal truncates towards zero.\<close>

definition py_int :: "real \<Rightarrow> int" where
  "py_int x = (if 0 \<le> x then \<lfloor>x\<rfloor> else \<lceil>x\<rceil>)"

text \<open>
  \<^verbatim>\<open>_query_scalar\<close> returns the backend's value, or \<^verbatim>\<open>None\<close> when the result is
  empty or the query failed; \<^verbatim>\<open>_query_scalar_or_zero\<close> replaces \<^verbatim>\<open>None\<close> by zero.
\<close>

definition query_scalar_or_zero :: "decimal option \<Rightarrow> decimal" where
  "query_scalar_or_zero result = (case result of Some v \<Rightarrow> v | None \<Rightarrow> 0)"

text \<open>
  What the backend answers to the eight PromQL queries of \<^verbatim>\<open>collect_k6_metrics\<close>, in
  the order the function issues them. The trend query for the 95th percentile is sent
  only when the histogram query gave zero.
\<close>

record k6_backend =
  q_reqs_total :: "decimal option"
  q_reqs_rate :: "decimal option"
  q_p95_histogram :: "decimal option"
  q_p95_trend :: "decimal option"
  q_avg_latency :: "decimal option"
  q_min_latency :: "decimal option"
  q_max_latency :: "decimal option"
  q_failed_total :: "decimal option"

record K6Metrics =
  total_requests :: int
  request_rate :: decimal
  p95_latency_ms :: decimal
  avg_latency_ms :: decimal
  min_latency_ms :: decimal
  max_latency_ms :: decimal
  error_rate :: decimal
  failed_requests :: int

definition collect_k6_metrics :: "k6_backend \<Rightarrow> K6Metrics" where
  "collect_k6_metrics prom =
     (let total = py_int (query_scalar_or_zero (q_reqs_total prom));
          rate = query_scalar_or_zero (q_reqs_rate prom);
          p95_hist = query_scalar_or_zero (q_p95_histogram prom);
          p95 = (if p95_hist = 0 then query_scalar_or_zero (q_p95_trend prom) else p95_hist);
          avg = query_scalar_or_zero (q_avg_latency prom);
          min_latency = query_scalar_or_zero (q_min_latency prom);
          max_latency = query_scalar_or_zero (q_max_latency prom);
          failed = py_int (query_scalar_or_zero (q_failed_total prom));
          err = (if total > 0 then real_of_int failed / real_of_int total else 0)
      in \<lparr>total_requests = total, request_rate = rate, p95_latency_ms = p95,
          avg_latency_ms = avg, min_latency_ms = min_latency, max_latency_ms = max_latency,
          error_rate = err, failed_requests = failed\<rparr>)"

text \<open>A backend that answers the two counting queries and nothing else.\<close>

definition counts_only :: "decimal \<Rightarrow> decimal \<Rightarrow> k6_backend" where
  "counts_only n_total n_failed =
     \<lparr>q_reqs_total = Some n_total, q_reqs_rate = None, q_p95_histogram = None,
      q_p95_trend = None, q_avg_latency = None, q_min_latency = None,
      q_max_latency = None, q_failed_total = Some n_failed\<rparr>"

subsection \<open>Dictionaries\<close>

text \<open>
  \<^verbatim>\<open>d[k] = v\<close>: an existing key keeps its place and gets the new value, a new key is
  put last. \<^verbatim>\<open>d.get(k)\<close> is \<^const>\<open>map_of\<close>.
\<close>

fun dict_set :: "'k \<Rightarrow> 'v \<Rightarrow> ('k \<times> 'v) list \<Rightarrow> ('k \<times> 'v) list" where
  "dict_set k v [] = [(k, v)]"
| "dict_set k v ((k', v') # kvs) =
     (if k' = k then (k, v) # kvs else (k', v') # dict_set k v kvs)"

subsection \<open>Per-entity and cumulative resource metrics (\<^verbatim>\<open>MetricsCollector.collect_pod_metrics\<close>)\<close>

record PodResourceMetrics =
  pod_name :: string
  avg_cpu_millicores :: decimal
  max_cpu_millicores :: decimal
  avg_memory_mb :: decimal
  max_memory_mb :: decimal

record CumulativeResourceMetrics =
  avg_cpu_millicores :: decimal
  max_cpu_millicores :: decimal
  avg_memory_mb :: decimal
  max_memory_mb :: decimal

text \<open>
  One item of an instant query's result: the \<^verbatim>\<open>pod\<close> label of \<^verbatim>\<open>item["metric"]\<close>,
  when it has one, and the sample \<^verbatim>\<open>item["value"][1]\<close>.
\<close>

record instant_sample =
  pod_label :: "string option"
  sample :: decimal

definition item_pod_name :: "instant_sample \<Rightarrow> string" where
  "item_pod_name item = (case pod_label item of Some p \<Rightarrow> p | None \<Rightarrow> ''unknown'')"

text \<open>The first loop: \<^verbatim>\<open>pods[pod_name] = {"cpu": cpu_value, "mem": Decimal("0")}\<close>.\<close>

fun add_cpu_results ::
  "instant_sample list \<Rightarrow> (string \<times> decimal \<times> decimal) list \<Rightarrow> (string \<times> decimal \<times> decimal) list" where
  "add_cpu_results [] pods = pods"
| "add_cpu_results (item # items) pods =
     add_cpu_results items (dict_set (item_pod_name item) (sample item, 0) pods)"

text \<open>The second loop: a pod seen before keeps its CPU value, a new one gets CPU zero.\<close>

fun add_mem_results ::
  "instant_sample list \<Rightarrow> (string \<times> decimal \<times> decimal) list \<Rightarrow> (string \<times> decimal \<times> decimal) list" where
  "add_mem_results [] pods = pods"
| "add_mem_results (item # items) pods =
     add_mem_results items
       (case map_of pods (item_pod_name item) of
          Some (cpu, mem) \<Rightarrow> dict_set (item_pod_name item) (cpu, sample item) pods
        | None \<Rightarrow> dict_set (item_pod_name item) (0, sample item) pods)"

definition pod_of_entry :: "string \<times> decimal \<times> decimal \<Rightarrow> PodResourceMetrics" where
  "pod_of_entry e =
     (case e of (name, cpu, mem) \<Rightarrow>
        \<lparr>pod_name = name, PodResourceMetrics.avg_cpu_millicores = cpu,
         PodResourceMetrics.max_cpu_millicores = cpu, PodResourceMetrics.avg_memory_mb = mem,
         PodResourceMetrics.max_memory_mb = mem\<rparr>)"

text \<open>\<^verbatim>\<open>max(xs, default=d)\<close>.\<close>

definition max_default :: "'a::linorder list \<Rightarrow> 'a \<Rightarrow> 'a" where
  "max_default xs d = (case xs of [] \<Rightarrow> d | x # rest \<Rightarrow> fold max rest x)"

text \<open>
  The two responses are those of the two instant queries; \<open>None\<close> is a query that
  raised, which empties both result lists. \<open>max_cpu\<close> and \<open>max_mem\<close> are computed by
  the source and then left unused.
\<close>

definition collect_pod_metrics ::
  "instant_sample list option \<Rightarrow> instant_sample list option
     \<Rightarrow> PodResourceMetrics list \<times> CumulativeResourceMetrics" where
  "collect_pod_metrics cpu_response mem_response =
     (let (cpu_results, mem_results) =
            (case (cpu_response, mem_response) of
               (Some c, Some m) \<Rightarrow> (c, m)
             | _ \<Rightarrow> ([], []));
          pods = add_mem_results mem_results (add_cpu_results cpu_results []);
          pod_metrics = map pod_of_entry (sort_key fst pods);
          total_cpu = sum_list (map PodResourceMetrics.avg_cpu_millicores pod_metrics);
          total_mem = sum_list (map PodResourceMetrics.avg_memory_mb pod_metrics);
          max_cpu = max_default (map PodResourceMetrics.max_cpu_millicores pod_metrics) 0;
          max_mem = max_default (map PodResourceMetrics.max_memory_mb pod_metrics) 0;
          cumulative = \<lparr>avg_cpu_millicores = total_cpu, max_cpu_millicores = total_cpu,
                        avg_memory_mb = total_mem, max_memory_mb = total_mem\<rparr>
      in (pod_metrics, cumulative))"

text \<open>
  What the two loops amount to, for checking the collector against its inputs: the
  sample of the last item of a result list that has a given pod name, zero when there is
  none; the pod names of both result lists, each once, in sorted order; and the snapshot
  of a pod.
\<close>

definition last_sample_opt :: "instant_sample list \<Rightarrow> string \<Rightarrow> decimal option" where
  "last_sample_opt items name =
     (case filter (\<lambda>item. item_pod_name item = name) items of
        [] \<Rightarrow> None
      | x # xs \<Rightarrow> Some (sample (last (x # xs))))"

definition last_sample :: "instant_sample list \<Rightarrow> string \<Rightarrow> decimal" where
  "last_sample items name = (case last_sample_opt items name of None \<Rightarrow> 0 | Some v \<Rightarrow> v)"

definition pod_names :: "instant_sample list \<Rightarrow> instant_sample list \<Rightarrow> string list" where
  "pod_names cpu_results mem_results =
     sort (remdups (map item_pod_name (cpu_results @ mem_results)))"

definition pod_snapshot ::
  "instant_sample list \<Rightarrow> instant_sample list \<Rightarrow> string \<Rightarrow> PodResourceMetrics" where
  "pod_snapshot cpu_results mem_results name =
     \<lparr>pod_name = name,
      PodResourceMetrics.avg_cpu_millicores = last_sample cpu_results name,
      PodResourceMetrics.max_cpu_millicores = last_sample cpu_results name,
      PodResourceMetrics.avg_memory_mb = last_sample mem_results name,
      PodResourceMetrics.max_memory_mb = last_sample mem_results name\<rparr>"

definition two_pods_cpu :: "instant_sample list" where
  "two_pods_cpu = [\<lparr>pod_label = Some ''http-echo-foo-1'', sample = 10\<rparr>,
                   \<lparr>pod_label = Some ''http-echo-bar-1'', sample = 30\<rparr>]"

definition two_pods_mem :: "instant_sample list" where
  "two_pods_mem = [\<lparr>pod_label = Some ''http-echo-bar-1'', sample = 64\<rparr>,
                   \<lparr>pod_label = None, sample = 5\<rparr>]"

subsection \<open>Threshold extraction (\<^verbatim>\<open>parse_k6_script\<close>)\<close>

text \<open>
  \<^verbatim>\<open>\s\<close> of a pattern on \<^verbatim>\<open>str\<close>, within ASCII: the space, the characters 9 to 13
  and the separators 28 to 31.
\<close>

definition is_space :: "char \<Rightarrow> bool" where
  "is_space c =
     (c \<in> set [CHR '' '', CHR 0x09, CHR 0x0A, CHR 0x0B, CHR 0x0C, CHR 0x0D,
                CHR 0x1C, CHR 0x1D, CHR 0x1E, CHR 0x1F])"

definition is_quote :: "char \<Rightarrow> bool" where
  "is_quote c = (c = CHR 0x27 \<or> c = CHR 0x22)"

text \<open>\<^verbatim>\<open>s.startswith(p)\<close>, answering the rest of \<open>s\<close>.\<close>

fun strip_prefix :: "string \<Rightarrow> string \<Rightarrow> string option" where
  "strip_prefix [] s = Some s"
| "strip_prefix (p # ps) [] = None"
| "strip_prefix (p # ps) (c # cs) = (if p = c then strip_prefix ps cs else None)"

text \<open>\<^verbatim>\<open>sub in s\<close> for strings.\<close>

fun py_in :: "string \<Rightarrow> string \<Rightarrow> bool" where
  "py_in sub [] = (sub = [])"
| "py_in sub (c # cs) = (strip_prefix sub (c # cs) \<noteq> None \<or> py_in sub cs)"

text \<open>
  \<^verbatim>\<open>re.search(r"thresholds:\s*\{(.*?)\}", content, re.DOTALL)\<close>, answering group 1. At
  one start position: the literal, then all the white space there is (giving some back
  cannot help, the next character has to be the brace), the brace, and the shortest text
  up to a closing brace, which has to exist.
\<close>

definition match_thresholds_here :: "string \<Rightarrow> string option" where
  "match_thresholds_here s =
     (case strip_prefix ''thresholds:'' s of
        None \<Rightarrow> None
      | Some r \<Rightarrow>
          (case dropWhile is_space r of
             [] \<Rightarrow> None
           | b # body \<Rightarrow>
               if b = CHR ''{'' \<and> CHR ''}'' \<in> set body
               then Some (takeWhile (\<lambda>c. c \<noteq> CHR ''}'') body) else None))"

fun search_thresholds :: "string \<Rightarrow> string option" where
  "search_thresholds [] = None"
| "search_thresholds (c # cs) =
     (case match_thresholds_here (c # cs) of Some g \<Rightarrow> Some g | None \<Rightarrow> search_thresholds cs)"

text \<open>
  The threshold pattern \<^verbatim>\<open>['\"]([^'\"]+)['\"]:\s*\[['\"]([^'\"]+)['\"]\<close> at one start
  position, answering the two groups and the length of the match. A group is the longest
  run of characters other than quotes (a shorter one is never followed by a quote), and
  it is not empty.
\<close>

definition quoted_here :: "string \<Rightarrow> (string \<times> string) option" where
  "quoted_here s =
     (case s of
        [] \<Rightarrow> None
      | q # r \<Rightarrow>
          if is_quote q \<and> takeWhile (\<lambda>c. \<not> is_quote c) r \<noteq> []
          then (case dropWhile (\<lambda>c. \<not> is_quote c) r of
                  [] \<Rightarrow> None
                | q' # rest \<Rightarrow> Some (takeWhile (\<lambda>c. \<not> is_quote c) r, rest))
          else None)"

definition match_threshold_here :: "string \<Rightarrow> (string \<times> string \<times> nat) option" where
  "match_threshold_here s =
     (case quoted_here s of
        None \<Rightarrow> None
      | Some (key, r) \<Rightarrow>
          (case r of
             [] \<Rightarrow> None
           | colon # r' \<Rightarrow>
               if colon = CHR '':'' then
                 (case dropWhile is_space r' of
                    [] \<Rightarrow> None
                  | bracket # r'' \<Rightarrow>
                      if bracket = CHR ''['' then
                        (case quoted_here r'' of
                           None \<Rightarrow> None
                         | Some (val, rest) \<Rightarrow> Some (key, val, length s - length rest))
                      else None)
               else None))"

text \<open>
  \<^verbatim>\<open>threshold_pattern.finditer(thresholds_content)\<close>: the matches from left to right,
  each search starting where the match before it ended (\<open>skip\<close> counts the characters
  of that match still to pass).
\<close>

fun finditer_thresholds :: "nat \<Rightarrow> string \<Rightarrow> (string \<times> string) list" where
  "finditer_thresholds skip [] = []"
| "finditer_thresholds (Suc skip) (c # cs) = finditer_thresholds skip cs"
| "finditer_thresholds 0 (c # cs) =
     (case match_threshold_here (c # cs) of
        None \<Rightarrow> finditer_thresholds 0 cs
      | Some (key, val, n) \<Rightarrow> (key, val) # finditer_thresholds (n - 1) cs)"

text \<open>The loop over the matches, with its two assignments.\<close>

fun assign_thresholds ::
  "(string \<times> string) list \<Rightarrow> (string \<times> string) list \<Rightarrow> (string \<times> string) list" where
  "assign_thresholds [] thresholds = thresholds"
| "assign_thresholds ((key, val) # matches) thresholds =
     assign_thresholds matches
       (if py_in ''duration'' key then dict_set ''p95'' val thresholds
        else if py_in ''failed'' key then dict_set ''error_rate'' val thresholds
        else thresholds)"

definition threshold_matches :: "string \<Rightarrow> (string \<times> string) list" where
  "threshold_matches content =
     (case search_thresholds content of
        None \<Rightarrow> []
      | Some thresholds_content \<Rightarrow> finditer_thresholds 0 thresholds_content)"

definition extract_thresholds :: "string \<Rightarrow> (string \<times> string) list" where
  "extract_thresholds content = assign_thresholds (threshold_matches content) []"

text \<open>
  The value of the last entry of a list of matches whose key satisfies \<open>P\<close>, if there is
  one.
\<close>

definition last_value :: "(string \<Rightarrow> bool) \<Rightarrow> (string \<times> string) list \<Rightarrow> string option" where
  "last_value P matches =
     (case filter (\<lambda>m. P (fst m)) matches of [] \<Rightarrow> None | m # ms \<Rightarrow> Some (snd (last (m # ms))))"

definition script_three_thresholds :: string where
  "script_three_thresholds =
     ''export const options = { stages: [ { duration: '' @ [CHR 0x27] @ ''30s'' @ [CHR 0x27]
     @ '', target: 20 } ], thresholds: { '' @ [CHR 0x27] @ ''http_req_duration'' @ [CHR 0x27] @ '': [''
     @ [CHR 0x27] @ ''p(95)<500'' @ [CHR 0x27] @ ''], '' @ [CHR 0x27] @ ''http_req_failed'' @ [CHR 0x27] @ '': [''
     @ [CHR 0x27] @ ''rate<0.01'' @ [CHR 0x27] @ ''], '' @ [CHR 0x22] @ ''group_duration''
     @ [CHR 0x22] @ '':  ['' @ [CHR 0x22] @ ''p(95)<800'' @ [CHR 0x22] @ ''] }, };''"

definition script_failed_duration :: string where
  "script_failed_duration =
     ''thresholds: { '' @ [CHR 0x27] @ ''http_req_failed'' @ [CHR 0x27] @ '': [''
     @ [CHR 0x27] @ ''rate<0.01'' @ [CHR 0x27] @ ''], '' @ [CHR 0x27] @ ''failed_login_duration''
     @ [CHR 0x27] @ '': ['' @ [CHR 0x27] @ ''p(95)<900'' @ [CHR 0x27] @ ''] }''"

subsection \<open>Stage windows (\<^verbatim>\<open>calculate_vu_stages\<close> and the alignment in \<^verbatim>\<open>main\<close>)\<close>

record K6Stage =
  duration :: string
  target :: int

record K6TestConfig =
  stages :: "K6Stage list"
  total_duration :: string
  peak_vus :: int
  targets :: "string list"
  thresholds :: "(string \<times> string) list"

record TimeSeriesPoint =
  timestamp :: real
  point_value :: real

record VUStage =
  start_timestamp :: real
  end_timestamp :: real
  vus :: int

text \<open>
  An aware \<^verbatim>\<open>datetime\<close> in UTC is the number of microseconds since the epoch, which
  is the resolution of the type. \<^verbatim>\<open>datetime.fromtimestamp(ts, tz=timezone.utc)\<close> rounds
  to the nearest microsecond, ties to even; \<^verbatim>\<open>dt.timestamp()\<close> is the way back;
  \<^verbatim>\<open>dt + timedelta(seconds=n)\<close> adds whole seconds. The range of years of the type,
  1 to 9999, is not part of the model.
\<close>

type_synonym datetime = int

definition round_half_even :: "real \<Rightarrow> int" where
  "round_half_even x =
     (let f = \<lfloor>x\<rfloor>; d = x - real_of_int f
      in if d < 1 / 2 then f else if d > 1 / 2 then f + 1 else if even f then f else f + 1)"

definition fromtimestamp :: "real \<Rightarrow> datetime" where
  "fromtimestamp ts = round_half_even (ts * 1000000)"

definition dt_timestamp :: "datetime \<Rightarrow> real" where
  "dt_timestamp dt = real_of_int dt / 1000000"

definition add_seconds :: "datetime \<Rightarrow> int \<Rightarrow> datetime" where
  "add_seconds dt n = dt + n * 1000000"

fun calculate_vu_stages :: "datetime \<Rightarrow> K6Stage list \<Rightarrow> py_error + VUStage list" where
  "calculate_vu_stages current_time [] = Inr []"
| "calculate_vu_stages current_time (stage # rest) =
     (case parse_duration_to_seconds (duration stage) of
        Inl e \<Rightarrow> Inl e
      | Inr duration_seconds \<Rightarrow>
          (let end_time = add_seconds current_time duration_seconds
           in case calculate_vu_stages end_time rest of
                Inl e \<Rightarrow> Inl e
              | Inr result \<Rightarrow>
                  Inr (\<lparr>start_timestamp = dt_timestamp current_time,
                        end_timestamp = dt_timestamp end_time,
                        vus = target stage\<rparr> # result)))"

text \<open>\<^verbatim>\<open>sum(parse_duration_to_seconds(s.duration) for s in stages)\<close>.\<close>

fun sum_stage_seconds :: "K6Stage list \<Rightarrow> int \<Rightarrow> py_error + int" where
  "sum_stage_seconds [] acc = Inr acc"
| "sum_stage_seconds (s # rest) acc =
     (case parse_duration_to_seconds (duration s) of
        Inl e \<Rightarrow> Inl e
      | Inr n \<Rightarrow> sum_stage_seconds rest (acc + n))"

text \<open>
  What \<^verbatim>\<open>parse_k6_script\<close> returns for the stages, targets and thresholds it has
  extracted from the script: it computes the total duration and the peak concurrency of
  the stages first, so it returns a configuration only when every stage duration parses.
\<close>

definition k6_test_config ::
  "K6Stage list \<Rightarrow> string list \<Rightarrow> (string \<times> string) list \<Rightarrow> py_error + K6TestConfig" where
  "k6_test_config stage_list target_list threshold_dict =
     (case sum_stage_seconds stage_list 0 of
        Inl e \<Rightarrow> Inl e
      | Inr total_seconds \<Rightarrow>
          (case seconds_to_duration_str total_seconds of
             Inl e \<Rightarrow> Inl e
           | Inr duration_text \<Rightarrow>
               Inr \<lparr>stages = stage_list, total_duration = duration_text,
                    peak_vus = max_default (map target stage_list) 0,
                    targets = target_list, thresholds = threshold_dict\<rparr>))"

text \<open>\<^verbatim>\<open>max(xs)\<close>, which raises on an empty sequence.\<close>

definition py_max :: "'a::linorder list \<Rightarrow> py_error + 'a" where
  "py_max xs = (case xs of [] \<Rightarrow> Inl ValueError | x # rest \<Rightarrow> Inr (fold max rest x))"

text \<open>
  The alignment of \<^verbatim>\<open>main\<close>: \<open>test_config\<close> is \<open>None\<close> when the script was not
  found, \<open>k6_time_range\<close> is what \<^verbatim>\<open>get_k6_test_time_range\<close> returned, and
  \<open>cumulative_cpu\<close> is the cumulative CPU series of the collected time series.
\<close>

definition main_vu_stages ::
  "K6TestConfig option \<Rightarrow> (datetime \<times> datetime) option \<Rightarrow> TimeSeriesPoint list
     \<Rightarrow> py_error + VUStage list" where
  "main_vu_stages test_config k6_time_range cumulative_cpu =
     (case test_config of
        None \<Rightarrow> Inr []
      | Some config \<Rightarrow>
          (case k6_time_range of
             Some (test_start_time, test_end_time) \<Rightarrow>
               calculate_vu_stages test_start_time (stages config)
           | None \<Rightarrow>
               if cumulative_cpu \<noteq> [] then
                 (case sum_stage_seconds (stages config) 0 of
                    Inl e \<Rightarrow> Inl e
                  | Inr test_duration_seconds \<Rightarrow>
                      (case py_max (map timestamp cumulative_cpu) of
                         Inl e \<Rightarrow> Inl e
                       | Inr actual_end \<Rightarrow>
                           (let test_start_ts = actual_end - real_of_int test_duration_seconds;
                                vu_start_time = fromtimestamp test_start_ts
                            in calculate_vu_stages vu_start_time (stages config))))
               else Inr []))"

text \<open>
  The number of seconds of a stage, and the layout the specification describes: the
  windows of a plan of (seconds, target) pairs follow one another from an anchor time,
  each as long as its stage.
\<close>

definition stage_seconds :: "K6Stage \<Rightarrow> int" where
  "stage_seconds s = (case parse_duration_to_seconds (duration s) of Inr n \<Rightarrow> n | Inl e \<Rightarrow> 0)"

fun sequential_windows :: "real \<Rightarrow> (int \<times> int) list \<Rightarrow> VUStage list" where
  "sequential_windows anchor [] = []"
| "sequential_windows anchor ((seconds, vu) # plan) =
     \<lparr>start_timestamp = anchor, end_timestamp = anchor + real_of_int seconds, vus = vu\<rparr>
       # sequential_windows (anchor + real_of_int seconds) plan"

definition plan_of :: "K6Stage list \<Rightarrow> (int \<times> int) list" where
  "plan_of sts = map (\<lambda>s. (stage_seconds s, target s)) sts"

definition three_stage_config :: K6TestConfig where
  "three_stage_config =
     \<lparr>stages = [\<lparr>duration = ''30s'', target = 20\<rparr>, \<lparr>duration = ''1m'', target = 50\<rparr>,
                \<lparr>duration = ''30s'', target = 20\<rparr>],
      total_duration = ''2m'', peak_vus = 50, targets = [], thresholds = []\<rparr>"

definition two_cpu_points :: "TimeSeriesPoint list" where
  "two_cpu_points = [\<lparr>timestamp = 1000, point_value = 5\<rparr>,
                     \<lparr>timestamp = 1120.5, point_value = 7\<rparr>]"

subsection \<open>The graph renderer (\<^verbatim>\<open>SVGGraphGenerator\<close>)\<close>

definition WIDTH :: int where "WIDTH = 900"
definition HEIGHT :: int where "HEIGHT = 320"
definition MARGIN_LEFT :: int where "MARGIN_LEFT = 60"
definition MARGIN_RIGHT :: int where "MARGIN_RIGHT = 20"
definition MARGIN_TOP :: int where "MARGIN_TOP = 50"
definition MARGIN_BOTTOM :: int where "MARGIN_BOTTOM = 50"
definition GRAPH_WIDTH :: int where "GRAPH_WIDTH = WIDTH - MARGIN_LEFT - MARGIN_RIGHT"
definition GRAPH_HEIGHT :: int where "GRAPH_HEIGHT = HEIGHT - MARGIN_TOP - MARGIN_BOTTOM"

definition FOO_COLORS :: "string list" where
  "FOO_COLORS = [''#8b5cf6'', ''#a78bfa'', ''#c4b5fd'']"

definition BAR_COLORS :: "string list" where
  "BAR_COLORS = [''#22c55e'', ''#4ade80'', ''#86efac'']"

definition CUMULATIVE_COLOR :: string where "CUMULATIVE_COLOR = ''#3b82f6''"
definition CUMULATIVE_FILL :: string where "CUMULATIVE_FILL = ''#93c5fd''"

definition VU_BG_COLORS :: "string list" where
  "VU_BG_COLORS = [''#fafafa'', ''#f5f5f5'']"

text \<open>
  \<^verbatim>\<open>_round_to_nearest\<close>: \<^verbatim>\<open>int((value + step - 1) // step * step)\<close>, the floor
  division being that of a float by an int. The step is 10 at its only call; the
  definition is used at no other step (with the step 0 the source divides by zero).
\<close>

definition round_to_nearest :: "real \<Rightarrow> int \<Rightarrow> int" where
  "round_to_nearest v step =
     py_int (real_of_int \<lfloor>(v + real_of_int step - 1) / real_of_int step\<rfloor> * real_of_int step)"

text \<open>
  The format \<^verbatim>\<open>:.1f\<close>: one digit after the point, the nearest such number, ties to
  even, and the sign of the number kept.
\<close>

definition fmt_1f :: "real \<Rightarrow> string" where
  "fmt_1f x =
     (let t = round_half_even (\<bar>x\<bar> * 10)
      in (if x < 0 then ''-'' else []) @ py_str (t div 10) @ ''.'' @ py_str (t mod 10))"

text \<open>\<^verbatim>\<open>str(n / 2)\<close> for an int \<open>n \<ge> 0\<close>, as in \<^verbatim>\<open>{cls.WIDTH / 2}\<close>.\<close>

definition str_half :: "int \<Rightarrow> string" where
  "str_half n = py_str (n div 2) @ (if even n then ''.0'' else ''.5'')"

text \<open>\<^verbatim>\<open>dt.strftime("%H:%M")\<close> of a datetime in UTC.\<close>

definition two_digits :: "int \<Rightarrow> string" where
  "two_digits n = (if n < 10 then ''0'' else []) @ py_str n"

definition strftime_HM :: "datetime \<Rightarrow> string" where
  "strftime_HM dt =
     (let seconds = dt div 1000000
      in two_digits (seconds mod 86400 div 3600) @ '':'' @ two_digits (seconds mod 3600 div 60))"

text \<open>\<^verbatim>\<open>s.lower()\<close> on ASCII.\<close>

definition py_lower :: "string \<Rightarrow> string" where
  "py_lower s = map (\<lambda>c. if CHR ''A'' \<le> c \<and> c \<le> CHR ''Z'' then char_of (of_char c + (32::nat)) else c) s"

text \<open>
  The per-entity data is a dictionary from the name of an entity to its points. The
  values of the y axis: those of the cumulative series, then those of every entity.
\<close>

type_synonym pod_data = "(string \<times> TimeSeriesPoint list) list"

definition all_values :: "TimeSeriesPoint list \<Rightarrow> pod_data \<Rightarrow> real list" where
  "all_values cumulative_points per_pod_data =
     map point_value cumulative_points @ concat (map (\<lambda>points. map point_value points) (map snd per_pod_data))"

definition max_value :: "TimeSeriesPoint list \<Rightarrow> pod_data \<Rightarrow> real" where
  "max_value cumulative_points per_pod_data =
     (case all_values cumulative_points per_pod_data of [] \<Rightarrow> 10 | v # vs \<Rightarrow> fold max vs v)"

definition y_max_of :: "TimeSeriesPoint list \<Rightarrow> pod_data \<Rightarrow> int" where
  "y_max_of cumulative_points per_pod_data =
     (let y_max = round_to_nearest (max_value cumulative_points per_pod_data * 1.1) 10
      in if y_max = 0 then 10 else y_max)"

definition to_svg_x :: "real \<Rightarrow> real \<Rightarrow> real \<Rightarrow> real" where
  "to_svg_x min_time time_range ts =
     real_of_int MARGIN_LEFT + ((ts - min_time) / time_range) * real_of_int GRAPH_WIDTH"

definition to_svg_y :: "int \<Rightarrow> real \<Rightarrow> real" where
  "to_svg_y y_max v =
     real_of_int MARGIN_TOP + real_of_int GRAPH_HEIGHT - (v / real_of_int y_max) * real_of_int GRAPH_HEIGHT"

text \<open>The three groups of entities, each sorted by name.\<close>

definition foo_pods :: "pod_data \<Rightarrow> string list" where
  "foo_pods per_pod_data = sort (filter (\<lambda>p. py_in ''foo'' (py_lower p)) (map fst per_pod_data))"

definition bar_pods :: "pod_data \<Rightarrow> string list" where
  "bar_pods per_pod_data = sort (filter (\<lambda>p. py_in ''bar'' (py_lower p)) (map fst per_pod_data))"

definition other_pods :: "pod_data \<Rightarrow> string list" where
  "other_pods per_pod_data =
     sort (filter (\<lambda>p. p \<notin> set (foo_pods per_pod_data) \<and> p \<notin> set (bar_pods per_pod_data))
       (map fst per_pod_data))"

definition pod_groups :: "pod_data \<Rightarrow> (string list \<times> string list) list" where
  "pod_groups per_pod_data =
     [(foo_pods per_pod_data, FOO_COLORS), (bar_pods per_pod_data, BAR_COLORS),
      (other_pods per_pod_data, FOO_COLORS)]"

definition legend_items :: "pod_data \<Rightarrow> (string \<times> string) list" where
  "legend_items per_pod_data =
     [(''Cumulative'', CUMULATIVE_COLOR)]
     @ (if foo_pods per_pod_data \<noteq> [] then [(''foo pods'', FOO_COLORS ! 0)] else [])
     @ (if bar_pods per_pod_data \<noteq> [] then [(''bar pods'', BAR_COLORS ! 0)] else [])"

text \<open>The pieces of the image, in the order the source appends them.\<close>

definition svg_open :: "string list" where
  \<open>svg_open =
     [''<svg viewBox="0 0 '' @ py_str WIDTH @ '' '' @ py_str HEIGHT
        @ ''" xmlns="http://www.w3.org/2000/svg" '',
      ''style="width:100%;max-width:'' @ py_str WIDTH
        @ ''px;height:auto;font-family:-apple-system,BlinkMacSystemFont,sans-serif;">'',
      ''<rect width="'' @ py_str WIDTH @ ''" height="'' @ py_str HEIGHT
        @ ''" fill="#ffffff" rx="12"/>'']\<close>

definition stage_band :: "real \<Rightarrow> real \<Rightarrow> real \<Rightarrow> nat \<times> VUStage \<Rightarrow> string list" where
  \<open>stage_band min_time max_time time_range entry =
     (case entry of (i, stage) \<Rightarrow>
        if start_timestamp stage \<ge> max_time \<or> end_timestamp stage \<le> min_time then []
        else
          (let start_x = to_svg_x min_time time_range (max (start_timestamp stage) min_time);
               end_x = to_svg_x min_time time_range (min (end_timestamp stage) max_time);
               bg_color = VU_BG_COLORS ! (i mod length VU_BG_COLORS);
               mid_x = (start_x + end_x) / 2
           in [''<rect x="'' @ fmt_1f start_x @ ''" y="'' @ py_str MARGIN_TOP @ ''" ''
                 @ ''width="'' @ fmt_1f (end_x - start_x) @ ''" height="'' @ py_str GRAPH_HEIGHT @ ''" ''
                 @ ''fill="'' @ bg_color @ ''"/>'',
               ''<text x="'' @ fmt_1f mid_x @ ''" y="'' @ py_str (MARGIN_TOP - 8) @ ''" ''
                 @ ''text-anchor="middle" font-size="10" fill="#888">'' @ py_str (vus stage)
                 @ '' VUs</text>'']))\<close>

definition grid_line :: "int \<Rightarrow> nat \<Rightarrow> string list" where
  \<open>grid_line y_max i =
     (let num_y_lines = 5;
          y_val = (real i / num_y_lines) * real_of_int y_max;
          y_pos = to_svg_y y_max y_val
      in [''<line x1="'' @ py_str MARGIN_LEFT @ ''" y1="'' @ fmt_1f y_pos @ ''" ''
            @ ''x2="'' @ py_str (WIDTH - MARGIN_RIGHT) @ ''" y2="'' @ fmt_1f y_pos @ ''" ''
            @ ''stroke="#e5e5e5" stroke-width="1"/>'',
          ''<text x="'' @ py_str (MARGIN_LEFT - 8) @ ''" y="'' @ fmt_1f (y_pos + 4) @ ''" ''
            @ ''text-anchor="end" font-size="11" fill="#888">'' @ py_str (py_int y_val)
            @ ''</text>''])\<close>

definition svg_point :: "real \<Rightarrow> real \<Rightarrow> int \<Rightarrow> TimeSeriesPoint \<Rightarrow> string" where
  "svg_point min_time time_range y_max pt =
     fmt_1f (to_svg_x min_time time_range (timestamp pt)) @ '','' @ fmt_1f (to_svg_y y_max (point_value pt))"

text \<open>The path through a first point and the points after it.\<close>

definition path_data :: "real \<Rightarrow> real \<Rightarrow> int \<Rightarrow> TimeSeriesPoint \<Rightarrow> TimeSeriesPoint list \<Rightarrow> string" where
  "path_data min_time time_range y_max p0 pts =
     ''M '' @ svg_point min_time time_range y_max p0
     @ concat (map (\<lambda>pt. '' L '' @ svg_point min_time time_range y_max pt) pts)"

definition cumulative_area :: "real \<Rightarrow> real \<Rightarrow> int \<Rightarrow> TimeSeriesPoint list \<Rightarrow> string list" where
  \<open>cumulative_area min_time time_range y_max cumulative_points =
     (case cumulative_points of
        [] \<Rightarrow> []
      | p0 # pts \<Rightarrow>
          (let path = path_data min_time time_range y_max p0 pts;
               fill_path = path
                 @ '' L '' @ fmt_1f (to_svg_x min_time time_range (timestamp (last cumulative_points)))
                 @ '','' @ fmt_1f (real_of_int (MARGIN_TOP + GRAPH_HEIGHT))
                 @ '' L '' @ fmt_1f (to_svg_x min_time time_range (timestamp p0))
                 @ '','' @ fmt_1f (real_of_int (MARGIN_TOP + GRAPH_HEIGHT)) @ '' Z''
           in [''<path d="'' @ fill_path @ ''" fill="'' @ CUMULATIVE_FILL @ ''" fill-opacity="0.5"/>'',
               ''<path d="'' @ path @ ''" fill="none" stroke="'' @ CUMULATIVE_COLOR
                 @ ''" stroke-width="2.5"/>'']))\<close>

definition pod_line ::
  "real \<Rightarrow> real \<Rightarrow> int \<Rightarrow> (string \<rightharpoonup> TimeSeriesPoint list) \<Rightarrow> string list \<Rightarrow> nat \<times> string \<Rightarrow> string list" where
  \<open>pod_line min_time time_range y_max get colors entry =
     (case entry of (i, name) \<Rightarrow>
        (case (case get name of Some points \<Rightarrow> points | None \<Rightarrow> []) of
           [] \<Rightarrow> []
         | p0 # pts \<Rightarrow>
             [''<path d="'' @ path_data min_time time_range y_max p0 pts @ ''" fill="none" stroke="''
                @ colors ! (i mod length colors) @ ''" stroke-width="1.5" stroke-opacity="0.7"/>'']))\<close>

definition pod_lines :: "real \<Rightarrow> real \<Rightarrow> int \<Rightarrow> pod_data \<Rightarrow> string list" where
  "pod_lines min_time time_range y_max per_pod_data =
     concat (map (\<lambda>(pods, colors).
         concat (map (pod_line min_time time_range y_max (map_of per_pod_data) colors) (enumerate 0 pods)))
       (pod_groups per_pod_data))"

definition axes :: "string list" where
  \<open>axes =
     [''<line x1="'' @ py_str MARGIN_LEFT @ ''" y1="'' @ py_str MARGIN_TOP @ ''" ''
        @ ''x2="'' @ py_str MARGIN_LEFT @ ''" y2="'' @ py_str (MARGIN_TOP + GRAPH_HEIGHT) @ ''" ''
        @ ''stroke="#1a1a1a" stroke-width="1"/>'',
      ''<line x1="'' @ py_str MARGIN_LEFT @ ''" y1="'' @ py_str (MARGIN_TOP + GRAPH_HEIGHT) @ ''" ''
        @ ''x2="'' @ py_str (WIDTH - MARGIN_RIGHT) @ ''" y2="'' @ py_str (MARGIN_TOP + GRAPH_HEIGHT) @ ''" ''
        @ ''stroke="#1a1a1a" stroke-width="1"/>'']\<close>

definition title_and_label :: "string \<Rightarrow> string \<Rightarrow> string list" where
  \<open>title_and_label title y_label =
     [''<text x="'' @ str_half WIDTH @ ''" y="24" text-anchor="middle" ''
        @ ''font-size="16" font-weight="600" fill="#1a1a1a">'' @ title @ ''</text>'',
      ''<text x="14" y="'' @ str_half HEIGHT @ ''" text-anchor="middle" ''
        @ ''font-size="12" fill="#666" transform="rotate(-90 14,'' @ str_half HEIGHT @ '')">''
        @ y_label @ ''</text>'']\<close>

definition x_label :: "real \<Rightarrow> real \<Rightarrow> nat \<Rightarrow> string list" where
  \<open>x_label min_time time_range i =
     (let num_x_labels = 6;
          ts = min_time + (real i / num_x_labels) * time_range;
          x_pos = to_svg_x min_time time_range ts;
          time_str = strftime_HM (fromtimestamp ts)
      in [''<text x="'' @ fmt_1f x_pos @ ''" y="'' @ py_str (MARGIN_TOP + GRAPH_HEIGHT + 20) @ ''" ''
            @ ''text-anchor="middle" font-size="11" fill="#888">'' @ time_str @ ''</text>''])\<close>

text \<open>The legend: a swatch and a label per item, \<open>legend_x\<close> moving right.\<close>

fun legend_parts :: "int \<Rightarrow> (string \<times> string) list \<Rightarrow> string list" where
  \<open>legend_parts legend_x [] = []\<close>
| \<open>legend_parts legend_x ((label, color) # items) =
     (let legend_y = HEIGHT - 15
      in [''<rect x="'' @ py_str legend_x @ ''" y="'' @ py_str (legend_y - 8)
            @ ''" width="12" height="12" fill="'' @ color @ ''" rx="2"/>'',
          ''<text x="'' @ py_str (legend_x + 16) @ ''" y="'' @ py_str legend_y
            @ ''" font-size="11" fill="#666">'' @ label @ ''</text>'']
         @ legend_parts (legend_x + int (length label) * 7 + 40) items)\<close>

definition empty_graph :: "string \<Rightarrow> string \<Rightarrow> string" where
  \<open>empty_graph title message =
     ''<svg viewBox="0 0 '' @ py_str WIDTH @ '' '' @ py_str HEIGHT
       @ ''" xmlns="http://www.w3.org/2000/svg" style="width:100%;max-width:'' @ py_str WIDTH
       @ ''px;height:auto;">'' @ [CHR 0x0A]
     @ ''  <rect width="'' @ py_str WIDTH @ ''" height="'' @ py_str HEIGHT
       @ ''" fill="#fafafa" rx="12"/>'' @ [CHR 0x0A]
     @ ''  <text x="'' @ str_half WIDTH
       @ ''" y="30" text-anchor="middle" font-size="14" font-weight="600" fill="#1a1a1a">''
       @ title @ ''</text>'' @ [CHR 0x0A]
     @ ''  <rect x="40" y="50" width="'' @ py_str (WIDTH - 80) @ ''" height="'' @ py_str (HEIGHT - 80)
       @ ''" fill="#ffffff" stroke="#e5e5e5" rx="8"/>'' @ [CHR 0x0A]
     @ ''  <text x="'' @ str_half WIDTH @ ''" y="'' @ str_half HEIGHT
       @ ''" text-anchor="middle" font-size="13" fill="#888">'' @ message @ ''</text>'' @ [CHR 0x0A]
     @ ''</svg>''\<close>

text \<open>
  Everything the image shows before its legend, for a cumulative series with a first
  point.
\<close>

definition graph_body ::
  "TimeSeriesPoint list \<Rightarrow> pod_data \<Rightarrow> VUStage list \<Rightarrow> string \<Rightarrow> string \<Rightarrow> string list" where
  "graph_body cumulative_points per_pod_data vu_stages title y_label =
     (let all_timestamps = map timestamp cumulative_points;
          min_time = fold min (tl all_timestamps) (hd all_timestamps);
          max_time = fold max (tl all_timestamps) (hd all_timestamps);
          time_range = (if max_time > min_time then max_time - min_time else 1);
          y_max = y_max_of cumulative_points per_pod_data
      in svg_open
         @ concat (map (stage_band min_time max_time time_range) (enumerate 0 vu_stages))
         @ concat (map (grid_line y_max) [0..<5 + 1])
         @ cumulative_area min_time time_range y_max cumulative_points
         @ pod_lines min_time time_range y_max per_pod_data
         @ axes
         @ title_and_label title y_label
         @ concat (map (x_label min_time time_range) [0..<6 + 1]))"

definition generate_resource_graph ::
  "TimeSeriesPoint list \<Rightarrow> pod_data \<Rightarrow> VUStage list \<Rightarrow> string \<Rightarrow> string \<Rightarrow> string" where
  "generate_resource_graph cumulative_points per_pod_data vu_stages title y_label =
     (if cumulative_points = [] then empty_graph title ''No data available''
      else concat (graph_body cumulative_points per_pod_data vu_stages title y_label
                   @ legend_parts MARGIN_LEFT (legend_items per_pod_data)
                   @ [''</svg>'']))"

text \<open>
  What the specification says of the y axis: the largest value, scaled by 1.1, rounded up
  to the next multiple of 10, and 10 when that is 0.
\<close>

definition spec_y_max :: "real \<Rightarrow> int" where
  "spec_y_max largest = (let r = \<lceil>largest * 1.1 / 10\<rceil> * 10 in if r = 0 then 10 else r)"

definition sample_cumulative :: "TimeSeriesPoint list" where
  "sample_cumulative = [\<lparr>timestamp = 1700000000, point_value = 12.5\<rparr>,
                        \<lparr>timestamp = 1700000015, point_value = 40\<rparr>,
                        \<lparr>timestamp = 1700000030, point_value = 33.25\<rparr>]"

definition sample_pods :: pod_data where
  "sample_pods = [(''http-echo-foo-7d9'', [\<lparr>timestamp = 1700000000, point_value = 5\<rparr>,
                                            \<lparr>timestamp = 1700000015, point_value = 22\<rparr>]),
                  (''http-echo-bar-1c2'', [\<lparr>timestamp = 1700000000, point_value = 7.5\<rparr>,
                                            \<lparr>timestamp = 1700000030, point_value = 18\<rparr>]),
                  (''sidecar'', [])]"

definition sample_pods_reordered :: pod_data where
  "sample_pods_reordered = [(''sidecar'', []),
                  (''http-echo-bar-1c2'', [\<lparr>timestamp = 1700000000, point_value = 7.5\<rparr>,
                                            \<lparr>timestamp = 1700000030, point_value = 18\<rparr>]),
                  (''http-echo-foo-7d9'', [\<lparr>timestamp = 1700000000, point_value = 5\<rparr>,
                                            \<lparr>timestamp = 1700000015, point_value = 22\<rparr>])]"

definition sample_stages :: "VUStage list" where
  "sample_stages = [\<lparr>start_timestamp = 1699999990, end_timestamp = 1700000020, vus = 20\<rparr>,
                    \<lparr>start_timestamp = 1700000020, end_timestamp = 1700000080, vus = 50\<rparr>]"

section \<open>Theorems\<close>

subsection \<open>Durations\<close>

lemma is_digit_iff: "is_digit c \<longleftrightarrow> 48 \<le> (of_char c :: nat) \<and> (of_char c :: nat) \<le> 57"
  by (simp add: is_digit_def less_eq_char_def)





lemma int_of_digits_snoc: "int_of_digits (ds @ [c]) = 10 * int_of_digits ds + digit_value c"
  by (simp add: int_of_digits_def)

lemma int_of_digits_nonneg: "list_all is_digit ds \<Longrightarrow> 0 \<le> int_of_digits ds"
proof (induction ds rule: rev_induct)
  case Nil
  then show ?case by (simp add: int_of_digits_def)
next
  case (snoc c ds)
  then have "0 \<le> int_of_digits ds" and "is_digit c" by simp_all
  then show ?case
    by (simp add: int_of_digits_snoc digit_value_def is_digit_iff)
qed





lemma backtrack_inside_run:
  "k < length (takeWhile is_digit s) \<Longrightarrow> \<not> is_digit u \<Longrightarrow> backtrack u s k = None"
proof (induction k)
  case 0
  then show ?case by simp
next
  case (Suc k)
  from Suc.prems have "is_digit (s ! Suc k)"
    by (metis nth_mem set_takeWhileD takeWhile_nth)
  with Suc show ?case by auto
qed

lemma match_here_eq:
  assumes "\<not> is_digit u"
  shows "match_here u s =
     (if takeWhile is_digit s \<noteq> [] \<and> dropWhile is_digit s \<noteq> [] \<and> hd (dropWhile is_digit s) = u
      then Some (takeWhile is_digit s) else None)"
proof (cases "length (takeWhile is_digit s)")
  case 0
  then show ?thesis by (simp add: match_here_def)
next
  case (Suc k)
  have len: "length (takeWhile is_digit s) \<le> length s"
    by (rule length_takeWhile_le)
  have bt: "backtrack u s k = None"
    using Suc assms by (simp add: backtrack_inside_run)
  have tk: "take (Suc k) s = takeWhile is_digit s"
    using Suc by (metis takeWhile_eq_take)
  have dr: "dropWhile is_digit s = drop (Suc k) s"
    using Suc by (metis dropWhile_eq_drop)
  show ?thesis
  proof (cases "Suc k < length s")
    case True
    then have "hd (dropWhile is_digit s) = s ! Suc k" and "dropWhile is_digit s \<noteq> []"
      using dr by (simp_all add: hd_drop_conv_nth)
    with True Suc bt tk show ?thesis
      by (auto simp: match_here_def)
  next
    case False
    with len Suc have "dropWhile is_digit s = []"
      using dr by simp
    with False Suc bt show ?thesis
      by (simp add: match_here_def)
  qed
qed


lemma match_here_Some_digits:
  assumes "match_here u s = Some g" and "\<not> is_digit u"
  shows "g \<noteq> [] \<and> list_all is_digit g \<and> (\<exists>rest. s = g @ u # rest)"
proof -
  from assms have g: "g = takeWhile is_digit s" and ne: "takeWhile is_digit s \<noteq> []"
    and dr: "dropWhile is_digit s \<noteq> []" and hd: "hd (dropWhile is_digit s) = u"
    by (auto simp: match_here_eq split: if_splits)
  from dr hd obtain rest where "dropWhile is_digit s = u # rest"
    by (cases "dropWhile is_digit s") auto
  then have "s = g @ u # rest"
    using g by (metis takeWhile_dropWhile_id)
  then have "\<exists>rest. s = g @ u # rest" ..
  moreover have "list_all is_digit g"
    using g by (simp add: list_all_iff) (metis set_takeWhileD)
  moreover have "g \<noteq> []"
    using g ne by simp
  ultimately show ?thesis by simp
qed

lemma re_search_Some_digits:
  "re_search u s = Some g \<Longrightarrow> \<not> is_digit u \<Longrightarrow> g \<noteq> [] \<and> list_all is_digit g"
proof (induction s)
  case Nil
  then show ?case by simp
next
  case (Cons c cs)
  show ?case
  proof (cases "match_here u (c # cs)")
    case None
    with Cons show ?thesis by simp
  next
    case (Some h)
    with Cons.prems have "h = g" by simp
    with Some Cons.prems show ?thesis
      using match_here_Some_digits by blast
  qed
qed

lemma takeWhile_digits_unit:
  "list_all is_digit ds \<Longrightarrow> \<not> is_digit u \<Longrightarrow> takeWhile is_digit (ds @ u # rest) = ds"
  by (induction ds) simp_all

lemma dropWhile_digits_unit:
  "list_all is_digit ds \<Longrightarrow> \<not> is_digit u \<Longrightarrow> dropWhile is_digit (ds @ u # rest) = u # rest"
  by (induction ds) simp_all

lemma re_search_run:
  assumes "list_all is_digit ds" and "ds \<noteq> []" and "\<not> is_digit u"
  shows "re_search u (ds @ u # rest) = Some ds"
proof -
  have "match_here u (ds @ u # rest) = Some ds"
    using assms by (simp add: match_here_eq takeWhile_digits_unit dropWhile_digits_unit)
  moreover obtain c cs where "ds @ u # rest = c # cs"
    by (cases "ds @ u # rest") auto
  ultimately show ?thesis by simp
qed

lemma re_search_skip:
  assumes "list_all is_digit ds" and "\<not> is_digit v" and "v \<noteq> u" and "\<not> is_digit u"
  shows "re_search u (ds @ v # rest) = re_search u rest"
  using assms(1)
proof (induction ds)
  case Nil
  from assms(2,4) show ?case
    by (simp add: match_here_eq)
next
  case (Cons d ds)
  then have run: "list_all is_digit (d # ds)" by simp
  have "match_here u ((d # ds) @ v # rest) = None"
    using assms(2,3,4) Cons.prems
    by (simp add: match_here_eq takeWhile_digits_unit dropWhile_digits_unit)
  with Cons show ?case by simp
qed

lemma has_component_iff:
  "has_component u s \<longleftrightarrow> (\<exists>pre d post. s = pre @ d # u # post \<and> is_digit d)"
proof (induction u s rule: has_component.induct)
  case (1 u a b cs)
  show ?case
  proof
    assume "has_component u (a # b # cs)"
    then consider "is_digit a \<and> b = u" | "has_component u (b # cs)" by auto
    then show "\<exists>pre d post. a # b # cs = pre @ d # u # post \<and> is_digit d"
    proof cases
      case 1
      then have "a # b # cs = [] @ a # u # cs \<and> is_digit a" by simp
      then show ?thesis by blast
    next
      case 2
      with "1.IH" obtain pre d post where "b # cs = pre @ d # u # post" "is_digit d"
        by blast
      then have "a # b # cs = (a # pre) @ d # u # post \<and> is_digit d" by simp
      then show ?thesis by blast
    qed
  next
    assume "\<exists>pre d post. a # b # cs = pre @ d # u # post \<and> is_digit d"
    then obtain pre d post where eq: "a # b # cs = pre @ d # u # post" and d: "is_digit d"
      by blast
    show "has_component u (a # b # cs)"
    proof (cases pre)
      case Nil
      with eq d show ?thesis by simp
    next
      case (Cons p ps)
      with eq have "b # cs = ps @ d # u # post" by simp
      with d have "\<exists>pre d post. b # cs = pre @ d # u # post \<and> is_digit d" by blast
      with "1.IH" have "has_component u (b # cs)" by simp
      then show ?thesis by simp
    qed
  qed
qed (auto simp: Cons_eq_append_conv)

lemma match_here_has_component:
  assumes "match_here u s = Some g" and "\<not> is_digit u"
  shows "has_component u s"
proof -
  from match_here_Some_digits [OF assms] obtain rest where
    g: "g \<noteq> []" "list_all is_digit g" and s: "s = g @ u # rest" by blast
  from g have "g = butlast g @ [last g]" and "is_digit (last g)"
    by (simp_all add: list_all_iff)
  with s have "s = butlast g @ last g # u # rest \<and> is_digit (last g)"
    by (metis append.assoc append_Cons append_Nil)
  then show ?thesis
    unfolding has_component_iff by blast
qed

lemma re_search_None_iff:
  assumes "\<not> is_digit u"
  shows "re_search u s = None \<longleftrightarrow> \<not> has_component u s"
proof (induction s)
  case Nil
  then show ?case by simp
next
  case (Cons c cs)
  show ?case
  proof (cases "match_here u (c # cs)")
    case (Some g)
    from match_here_has_component [OF Some assms] have "has_component u (c # cs)" .
    with Some show ?thesis by simp
  next
    case None
    have "\<not> (is_digit c \<and> (\<exists>post. cs = u # post))"
    proof
      assume "is_digit c \<and> (\<exists>post. cs = u # post)"
      then obtain post where "is_digit c" "cs = u # post" by blast
      then have "match_here u (c # cs) = Some [c]"
        using assms by (simp add: match_here_eq)
      with None show False by simp
    qed
    then have "has_component u (c # cs) = has_component u cs"
      by (cases cs) auto
    with None Cons show ?thesis by simp
  qed
qed

lemma unit_not_digit: "\<not> is_digit CHR ''m''" "\<not> is_digit CHR ''s''"
  by (simp_all add: is_digit_iff)

lemma py_int_str_group:
  "g \<noteq> [] \<Longrightarrow> list_all is_digit g \<Longrightarrow> length g \<le> int_max_str_digits \<Longrightarrow>
     \<exists>n. py_int_str g = Inr n \<and> 0 \<le> n"
  by (simp add: py_int_str_def int_of_digits_nonneg)

lemma py_int_str_too_long: "int_max_str_digits < length g \<Longrightarrow> py_int_str g = Inl ValueError"
  by (simp add: py_int_str_def)

lemma group_converts:
  assumes "re_search u s = Some g" and "\<not> is_digit u" and "\<not> group_too_long u s"
  shows "\<exists>n. py_int_str g = Inr n \<and> 0 \<le> n"
proof -
  from assms(1,2) have "g \<noteq> []" and "list_all is_digit g"
    using re_search_Some_digits by blast+
  moreover from assms(1,3) have "length g \<le> int_max_str_digits"
    by (simp add: group_too_long_def)
  ultimately show ?thesis
    by (rule py_int_str_group)
qed

lemma parse_duration_Inr:
  assumes "\<not> group_too_long CHR ''m'' s" and "\<not> group_too_long CHR ''s'' s"
  shows "\<exists>n. parse_duration_to_seconds s = Inr n \<and> 0 \<le> n"
proof -
  have "\<exists>n. (case re_search CHR ''m'' s of None \<Rightarrow> Inr 0
            | Some g \<Rightarrow> (case py_int_str g of Inl e \<Rightarrow> Inl e | Inr n \<Rightarrow> Inr (0 + n * 60)))
        = (Inr n :: py_error + int) \<and> 0 \<le> n"
  proof (cases "re_search CHR ''m'' s")
    case None
    then show ?thesis by simp
  next
    case (Some g)
    then obtain k where "py_int_str g = Inr k" "0 \<le> k"
      using group_converts [OF Some unit_not_digit(1) assms(1)] by blast
    with Some show ?thesis by simp
  qed
  then obtain a where a: "(case re_search CHR ''m'' s of None \<Rightarrow> Inr 0
            | Some g \<Rightarrow> (case py_int_str g of Inl e \<Rightarrow> Inl e | Inr n \<Rightarrow> Inr (0 + n * 60)))
        = (Inr a :: py_error + int)" and a0: "0 \<le> a" by blast
  show ?thesis
  proof (cases "re_search CHR ''s'' s")
    case None
    with a a0 show ?thesis by (simp add: parse_duration_to_seconds_def)
  next
    case (Some g)
    then obtain k where "py_int_str g = Inr k" "0 \<le> k"
      using group_converts [OF Some unit_not_digit(2) assms(2)] by blast
    with Some a a0 show ?thesis by (simp add: parse_duration_to_seconds_def)
  qed
qed

lemma parse_duration_Inl:
  assumes "group_too_long CHR ''m'' s \<or> group_too_long CHR ''s'' s"
  shows "parse_duration_to_seconds s = Inl ValueError"
proof (cases "group_too_long CHR ''m'' s")
  case True
  then obtain g where "re_search CHR ''m'' s = Some g" and "int_max_str_digits < length g"
    by (auto simp: group_too_long_def split: option.splits)
  then show ?thesis
    by (simp add: parse_duration_to_seconds_def py_int_str_too_long)
next
  case False
  with assms have "group_too_long CHR ''s'' s" by simp
  then obtain g where g: "re_search CHR ''s'' s = Some g" and "int_max_str_digits < length g"
    by (auto simp: group_too_long_def split: option.splits)
  then have long: "py_int_str g = Inl ValueError"
    by (simp add: py_int_str_too_long)
  define minutes where "minutes = (case re_search CHR ''m'' s of None \<Rightarrow> Inr 0
            | Some g \<Rightarrow> (case py_int_str g of Inl e \<Rightarrow> Inl e | Inr n \<Rightarrow> Inr (0 + n * 60)))"
  show ?thesis
  proof (cases minutes)
    case (Inl e)
    moreover have "e = ValueError" by (cases e) simp
    ultimately show ?thesis
      by (simp add: parse_duration_to_seconds_def minutes_def [symmetric])
  next
    case (Inr t)
    then show ?thesis
      by (simp add: parse_duration_to_seconds_def minutes_def [symmetric] g long)
  qed
qed

lemma short_string_groups:
  assumes "length s \<le> int_max_str_digits" and "\<not> is_digit u"
  shows "\<not> group_too_long u s"
proof (cases "re_search u s")
  case None
  then show ?thesis by (simp add: group_too_long_def)
next
  case (Some g)
  have "length g \<le> length s"
    using Some
  proof (induction s)
    case Nil
    then show ?case by simp
  next
    case (Cons c cs)
    show ?case
    proof (cases "match_here u (c # cs)")
      case None
      with Cons show ?thesis by simp
    next
      case (Some h)
      with Cons.prems have "h = g" by simp
      with Some obtain rest where "c # cs = g @ u # rest"
        using match_here_Some_digits [OF _ assms(2)] by blast
      then have "length (c # cs) = length (g @ u # rest)" by simp
      then show ?thesis by simp
    qed
  qed
  with assms(1) Some show ?thesis
    by (simp add: group_too_long_def)
qed

lemma parse_duration_no_component:
  "\<not> has_component CHR ''m'' s \<Longrightarrow> \<not> has_component CHR ''s'' s \<Longrightarrow>
     parse_duration_to_seconds s = Inr 0"
  by (simp add: parse_duration_to_seconds_def re_search_None_iff [symmetric] unit_not_digit)

lemma long_digit_run_props:
  "length long_digit_run = Suc int_max_str_digits" "list_all is_digit long_digit_run"
  "long_digit_run \<noteq> []"
  by (simp_all add: long_digit_run_def list_all_iff is_digit_iff)

text \<open>
  C10, as stated, fails: \<^verbatim>\<open>int\<close> refuses a group of more digits than the interpreter
  converts, 4300 by default, so the parser raises \<open>ValueError\<close> on 4301 nines followed by
  \<open>s\<close>.
\<close>

theorem parse_duration_raises:
  "length long_digit_run = 4301
   \<and> parse_duration_to_seconds (long_digit_run @ ''s'') = Inl ValueError"
proof -
  have "re_search CHR ''m'' (long_digit_run @ CHR ''s'' # []) = None"
    using long_digit_run_props by (simp add: re_search_skip unit_not_digit)
  moreover have "re_search CHR ''s'' (long_digit_run @ CHR ''s'' # []) = Some long_digit_run"
    using long_digit_run_props by (simp add: re_search_run unit_not_digit)
  moreover have "py_int_str long_digit_run = Inl ValueError"
    by (rule py_int_str_too_long) (simp add: long_digit_run_props)
  moreover have "length long_digit_run = 4301"
    by (simp add: long_digit_run_props int_max_str_digits_def)
  ultimately show ?thesis
    by (simp add: parse_duration_to_seconds_def)
qed

text \<open>
  C10, amended: the parser returns a non-negative integer for every string in which the
  group of digits found for the minutes and the one found for the seconds have at most
  4300 digits each, so for every string of at most 4300 characters; it raises
  \<open>ValueError\<close> when one of the two groups is longer; and for a string with neither a
  minutes nor a seconds component, the empty string among them, it returns 0.
\<close>

theorem parse_duration_total:
  "(\<not> group_too_long CHR ''m'' s \<and> \<not> group_too_long CHR ''s'' s \<longrightarrow>
       (\<exists>n. parse_duration_to_seconds s = Inr n \<and> 0 \<le> n))
   \<and> (length s \<le> int_max_str_digits \<longrightarrow> (\<exists>n. parse_duration_to_seconds s = Inr n \<and> 0 \<le> n))
   \<and> (group_too_long CHR ''m'' s \<or> group_too_long CHR ''s'' s \<longrightarrow>
       parse_duration_to_seconds s = Inl ValueError)
   \<and> (\<not> has_component CHR ''m'' s \<and> \<not> has_component CHR ''s'' s \<longrightarrow>
        parse_duration_to_seconds s = Inr 0)"
  using parse_duration_Inr [of s] parse_duration_Inl [of s] parse_duration_no_component [of s]
    short_string_groups [of s] unit_not_digit
  by blast

theorem parse_duration_total_witness:
  "\<not> has_component CHR ''m'' ''5 min'' \<and> \<not> has_component CHR ''s'' ''5 min''
   \<and> parse_duration_to_seconds ''5 min'' = Inr 0 \<and> parse_duration_to_seconds [] = Inr 0
   \<and> length ''2m30s'' \<le> int_max_str_digits
   \<and> (\<exists>n. parse_duration_to_seconds ''2m30s'' = Inr n \<and> 0 \<le> n)
   \<and> group_too_long CHR ''s'' (long_digit_run @ ''s'')
   \<and> parse_duration_to_seconds (long_digit_run @ ''s'') = Inl ValueError"
proof -
  have "\<not> has_component CHR ''m'' ''5 min'' \<and> \<not> has_component CHR ''s'' ''5 min''"
    by (simp add: is_digit_iff)
  moreover have "\<not> has_component CHR ''m'' [] \<and> \<not> has_component CHR ''s'' []"
    by simp
  moreover have "length ''2m30s'' \<le> int_max_str_digits"
    by (simp add: int_max_str_digits_def)
  moreover have "re_search CHR ''s'' (long_digit_run @ CHR ''s'' # []) = Some long_digit_run"
    using long_digit_run_props by (simp add: re_search_run unit_not_digit)
  then have "group_too_long CHR ''s'' (long_digit_run @ ''s'')"
    by (simp add: group_too_long_def long_digit_run_props)
  ultimately show ?thesis
    using parse_duration_total [of "''5 min''"] parse_duration_total [of "[]"]
      parse_duration_total [of "''2m30s''"] parse_duration_total [of "long_digit_run @ ''s''"]
    by simp
qed








subsection \<open>Error rate\<close>

lemma collect_k6_metrics_total:
  "total_requests (collect_k6_metrics prom) = py_int (query_scalar_or_zero (q_reqs_total prom))"
  by (simp add: collect_k6_metrics_def Let_def)

lemma collect_k6_metrics_failed:
  "failed_requests (collect_k6_metrics prom) = py_int (query_scalar_or_zero (q_failed_total prom))"
  by (simp add: collect_k6_metrics_def Let_def)

lemma collect_k6_metrics_error_rate:
  "error_rate (collect_k6_metrics prom) =
     (if total_requests (collect_k6_metrics prom) > 0
      then real_of_int (failed_requests (collect_k6_metrics prom))
           / real_of_int (total_requests (collect_k6_metrics prom))
      else 0)"
  by (simp add: collect_k6_metrics_def Let_def)

lemma py_int_of_int: "py_int (real_of_int n) = n"
  by (simp add: py_int_def)

text \<open>
  C2, as stated, fails: nothing in \<^verbatim>\<open>collect_k6_metrics\<close> relates the two counts, and a
  backend that reports two failed requests out of one gives the error rate 2.
\<close>

theorem error_rate_above_one:
  "error_rate (collect_k6_metrics (counts_only 1 2)) = 2
   \<and> \<not> error_rate (collect_k6_metrics (counts_only 1 2)) \<le> 1"
  by (simp add: collect_k6_metrics_def counts_only_def query_scalar_or_zero_def py_int_def Let_def)

text \<open>
  C2, amended: whenever the failed-request count of the snapshot is non-negative and
  does not exceed its total-request count, the error rate lies in the closed interval
  from 0 to 1.
\<close>

theorem error_rate_unit_interval:
  assumes "0 \<le> failed_requests (collect_k6_metrics prom)"
    and "failed_requests (collect_k6_metrics prom) \<le> total_requests (collect_k6_metrics prom)"
  shows "0 \<le> error_rate (collect_k6_metrics prom) \<and> error_rate (collect_k6_metrics prom) \<le> 1"
proof (cases "total_requests (collect_k6_metrics prom) > 0")
  case True
  with assms show ?thesis
    by (simp add: collect_k6_metrics_error_rate)
next
  case False
  then show ?thesis
    by (simp add: collect_k6_metrics_error_rate)
qed

theorem error_rate_unit_interval_witness:
  "failed_requests (collect_k6_metrics (counts_only 200 3)) = 3
   \<and> total_requests (collect_k6_metrics (counts_only 200 3)) = 200
   \<and> error_rate (collect_k6_metrics (counts_only 200 3)) = 3 / 200
   \<and> 0 \<le> error_rate (collect_k6_metrics (counts_only 200 3))
   \<and> error_rate (collect_k6_metrics (counts_only 200 3)) \<le> 1"
proof -
  have f: "failed_requests (collect_k6_metrics (counts_only 200 3)) = 3"
    by (simp add: collect_k6_metrics_def counts_only_def query_scalar_or_zero_def py_int_def Let_def)
  have t: "total_requests (collect_k6_metrics (counts_only 200 3)) = 200"
    by (simp add: collect_k6_metrics_def counts_only_def query_scalar_or_zero_def py_int_def Let_def)
  have e: "error_rate (collect_k6_metrics (counts_only 200 3)) = 3 / 200"
    by (simp add: collect_k6_metrics_def counts_only_def query_scalar_or_zero_def py_int_def Let_def)
  from error_rate_unit_interval [of "counts_only 200 3"] f t e show ?thesis
    by simp
qed

text \<open>
  C3: a snapshot whose total-request count is 0 has the error rate 0, whatever the
  failed-request count is; a snapshot whose total-request count is positive has the
  error rate failed / total.
\<close>

theorem error_rate_zero_total:
  "(total_requests (collect_k6_metrics prom) = 0 \<longrightarrow> error_rate (collect_k6_metrics prom) = 0)
   \<and> (total_requests (collect_k6_metrics prom) > 0 \<longrightarrow>
        error_rate (collect_k6_metrics prom) =
          real_of_int (failed_requests (collect_k6_metrics prom))
          / real_of_int (total_requests (collect_k6_metrics prom)))"
  by (simp add: collect_k6_metrics_error_rate)

theorem error_rate_zero_total_witness:
  "total_requests (collect_k6_metrics (counts_only 0 7)) = 0
   \<and> failed_requests (collect_k6_metrics (counts_only 0 7)) = 7
   \<and> error_rate (collect_k6_metrics (counts_only 0 7)) = 0
   \<and> total_requests (collect_k6_metrics (counts_only 8 2)) = 8
   \<and> error_rate (collect_k6_metrics (counts_only 8 2)) = 1 / 4"
proof -
  have t0: "total_requests (collect_k6_metrics (counts_only 0 7)) = 0"
    by (simp add: collect_k6_metrics_def counts_only_def query_scalar_or_zero_def py_int_def Let_def)
  have f0: "failed_requests (collect_k6_metrics (counts_only 0 7)) = 7"
    by (simp add: collect_k6_metrics_def counts_only_def query_scalar_or_zero_def py_int_def Let_def)
  have t8: "total_requests (collect_k6_metrics (counts_only 8 2)) = 8"
    by (simp add: collect_k6_metrics_def counts_only_def query_scalar_or_zero_def py_int_def Let_def)
  have f8: "failed_requests (collect_k6_metrics (counts_only 8 2)) = 2"
    by (simp add: collect_k6_metrics_def counts_only_def query_scalar_or_zero_def py_int_def Let_def)
  from error_rate_zero_total [of "counts_only 0 7"] error_rate_zero_total [of "counts_only 8 2"]
    t0 f0 t8 f8
  show ?thesis by simp
qed

subsection \<open>Cumulative resource metrics\<close>

lemma sort_distinct_set:
  "distinct xs \<Longrightarrow> distinct ys \<Longrightarrow> set xs = set ys \<Longrightarrow> sort xs = sort ys"
  by (metis distinct_remdups_id sorted_list_of_set_sort_remdups)

lemma map_of_dict_set: "map_of (dict_set k v d) = (map_of d)(k \<mapsto> v)"
  by (induction d) auto

lemma dict_set_keys:
  "map fst (dict_set k v d) = (if k \<in> set (map fst d) then map fst d else map fst d @ [k])"
  by (induction d) (force simp: image_iff split: if_splits)+

lemma dict_set_distinct: "distinct (map fst d) \<Longrightarrow> distinct (map fst (dict_set k v d))"
  by (simp add: dict_set_keys)

lemma last_sample_opt_Nil: "last_sample_opt [] name = None"
  by (simp add: last_sample_opt_def)

lemma last_sample_opt_Cons:
  "last_sample_opt (item # items) name =
     (case last_sample_opt items name of
        Some v \<Rightarrow> Some v
      | None \<Rightarrow> if item_pod_name item = name then Some (sample item) else None)"
  by (simp add: last_sample_opt_def split: list.splits)

lemma last_sample_opt_None_iff:
  "last_sample_opt items name = None \<longleftrightarrow> name \<notin> set (map item_pod_name items)"
  unfolding last_sample_opt_def
  by (cases "filter (\<lambda>item. item_pod_name item = name) items")
    (auto simp: filter_empty_conv dest: filter_eq_ConsD)

lemma add_cpu_results_distinct:
  "distinct (map fst pods) \<Longrightarrow> distinct (map fst (add_cpu_results items pods))"
  by (induction items arbitrary: pods) (simp_all add: dict_set_distinct)

lemma add_mem_results_distinct:
  "distinct (map fst pods) \<Longrightarrow> distinct (map fst (add_mem_results items pods))"
  by (induction items arbitrary: pods) (simp_all add: dict_set_distinct split: option.splits)

lemma add_cpu_results_map_of:
  "map_of (add_cpu_results items pods) name =
     (case last_sample_opt items name of Some v \<Rightarrow> Some (v, 0) | None \<Rightarrow> map_of pods name)"
  by (induction items arbitrary: pods)
    (simp_all add: last_sample_opt_Nil last_sample_opt_Cons map_of_dict_set split: option.splits)

lemma add_mem_results_map_of:
  "map_of (add_mem_results items pods) name =
     (case last_sample_opt items name of
        Some m \<Rightarrow> Some (case map_of pods name of Some (c, m') \<Rightarrow> c | None \<Rightarrow> 0, m)
      | None \<Rightarrow> map_of pods name)"
  by (induction items arbitrary: pods)
    (auto simp: last_sample_opt_Nil last_sample_opt_Cons map_of_dict_set split: option.splits)

lemma collected_pods_map_of:
  "map_of (add_mem_results mem_results (add_cpu_results cpu_results [])) name =
     (if name \<in> set (map item_pod_name (cpu_results @ mem_results))
      then Some (last_sample cpu_results name, last_sample mem_results name) else None)"
proof -
  have "last_sample_opt cpu_results name = None \<longleftrightarrow> name \<notin> set (map item_pod_name cpu_results)"
    and "last_sample_opt mem_results name = None \<longleftrightarrow> name \<notin> set (map item_pod_name mem_results)"
    by (rule last_sample_opt_None_iff)+
  then show ?thesis
    by (cases "last_sample_opt cpu_results name"; cases "last_sample_opt mem_results name")
      (auto simp: add_mem_results_map_of add_cpu_results_map_of last_sample_def)
qed

lemma map_insort_key: "map f (insort_key f x xs) = insort (f x) (map f xs)"
  by (induction xs) simp_all

lemma map_sort_key: "map f (sort_key f xs) = sort (map f xs)"
  by (induction xs) (simp_all add: map_insort_key)

lemma sort_key_by_lookup:
  assumes "distinct (map fst d)"
  shows "sort_key fst d = map (\<lambda>k. (k, the (map_of d k))) (sort (map fst d))"
proof -
  have eq: "(fst e, the (map_of d (fst e))) = e" if "e \<in> set (sort_key fst d)" for e
  proof -
    from that have "(fst e, snd e) \<in> set d" by simp
    with assms have "map_of d (fst e) = Some (snd e)"
      by (rule map_of_is_SomeI)
    then show ?thesis by simp
  qed
  have "map (\<lambda>e. (fst e, the (map_of d (fst e)))) (sort_key fst d) = sort_key fst d"
    by (rule map_idI) (rule eq)
  then have "sort_key fst d = map (\<lambda>k. (k, the (map_of d k))) (map fst (sort_key fst d))"
    by (simp add: comp_def)
  then show ?thesis
    by (simp only: map_sort_key)
qed

lemma collected_pods:
  "fst (collect_pod_metrics (Some cpu_results) (Some mem_results))
     = map (pod_snapshot cpu_results mem_results) (pod_names cpu_results mem_results)"
proof -
  define pods where "pods = add_mem_results mem_results (add_cpu_results cpu_results [])"
  have d: "distinct (map fst pods)"
    unfolding pods_def by (intro add_mem_results_distinct add_cpu_results_distinct) simp
  have look: "map_of pods name =
     (if name \<in> set (map item_pod_name (cpu_results @ mem_results))
      then Some (last_sample cpu_results name, last_sample mem_results name) else None)" for name
    unfolding pods_def by (rule collected_pods_map_of)
  have "set (map fst pods) = dom (map_of pods)"
    by (simp add: dom_map_of_conv_image_fst)
  also have "\<dots> = set (map item_pod_name (cpu_results @ mem_results))"
    by (auto simp: look dom_def split: if_splits)
  finally have keys: "set (map fst pods) = set (remdups (map item_pod_name (cpu_results @ mem_results)))"
    by simp
  have names: "sort (map fst pods) = pod_names cpu_results mem_results"
    unfolding pod_names_def using d keys by (intro sort_distinct_set) simp_all
  have "fst (collect_pod_metrics (Some cpu_results) (Some mem_results))
      = map pod_of_entry (sort_key fst pods)"
    by (simp add: collect_pod_metrics_def pods_def Let_def)
  also have "\<dots> = map (\<lambda>k. pod_of_entry (k, the (map_of pods k))) (pod_names cpu_results mem_results)"
    by (simp add: sort_key_by_lookup [OF d] names)
  also have "\<dots> = map (pod_snapshot cpu_results mem_results) (pod_names cpu_results mem_results)"
  proof (rule map_cong [OF refl])
    fix k
    assume "k \<in> set (pod_names cpu_results mem_results)"
    then have "k \<in> set (map item_pod_name (cpu_results @ mem_results))"
      by (simp add: pod_names_def)
    then have "the (map_of pods k) = (last_sample cpu_results k, last_sample mem_results k)"
      by (simp add: look)
    then show "pod_of_entry (k, the (map_of pods k)) = pod_snapshot cpu_results mem_results k"
      by (simp add: pod_of_entry_def pod_snapshot_def)
  qed
  finally show ?thesis .
qed

lemma cumulative_fields:
  "avg_cpu_millicores (snd (collect_pod_metrics cpu_response mem_response))
     = sum_list (map PodResourceMetrics.avg_cpu_millicores (fst (collect_pod_metrics cpu_response mem_response)))
   \<and> avg_memory_mb (snd (collect_pod_metrics cpu_response mem_response))
     = sum_list (map PodResourceMetrics.avg_memory_mb (fst (collect_pod_metrics cpu_response mem_response)))
   \<and> max_cpu_millicores (snd (collect_pod_metrics cpu_response mem_response))
     = sum_list (map PodResourceMetrics.avg_cpu_millicores (fst (collect_pod_metrics cpu_response mem_response)))
   \<and> max_memory_mb (snd (collect_pod_metrics cpu_response mem_response))
     = sum_list (map PodResourceMetrics.avg_memory_mb (fst (collect_pod_metrics cpu_response mem_response)))"
  by (simp add: collect_pod_metrics_def Let_def split: prod.splits)

text \<open>
  C7: whatever the two instant queries answer, the cumulative average CPU and memory are
  the sums of the per-entity averages, and the cumulative maxima are those same sums, not
  the maxima over the entities. When both queries answer, the entities are the pod names
  of the two results, each once and sorted, with the last CPU and memory sample of each
  (zero where a result has none), so the cumulative values are the sums of those samples
  over the pod names.
\<close>

theorem cumulative_is_sum:
  "avg_cpu_millicores (snd (collect_pod_metrics cpu_response mem_response))
     = sum_list (map PodResourceMetrics.avg_cpu_millicores (fst (collect_pod_metrics cpu_response mem_response)))
   \<and> avg_memory_mb (snd (collect_pod_metrics cpu_response mem_response))
     = sum_list (map PodResourceMetrics.avg_memory_mb (fst (collect_pod_metrics cpu_response mem_response)))
   \<and> max_cpu_millicores (snd (collect_pod_metrics cpu_response mem_response))
     = sum_list (map PodResourceMetrics.avg_cpu_millicores (fst (collect_pod_metrics cpu_response mem_response)))
   \<and> max_memory_mb (snd (collect_pod_metrics cpu_response mem_response))
     = sum_list (map PodResourceMetrics.avg_memory_mb (fst (collect_pod_metrics cpu_response mem_response)))
   \<and> fst (collect_pod_metrics (Some cpu_results) (Some mem_results))
     = map (pod_snapshot cpu_results mem_results) (pod_names cpu_results mem_results)
   \<and> avg_cpu_millicores (snd (collect_pod_metrics (Some cpu_results) (Some mem_results)))
     = sum_list (map (last_sample cpu_results) (pod_names cpu_results mem_results))
   \<and> max_cpu_millicores (snd (collect_pod_metrics (Some cpu_results) (Some mem_results)))
     = sum_list (map (last_sample cpu_results) (pod_names cpu_results mem_results))
   \<and> avg_memory_mb (snd (collect_pod_metrics (Some cpu_results) (Some mem_results)))
     = sum_list (map (last_sample mem_results) (pod_names cpu_results mem_results))
   \<and> max_memory_mb (snd (collect_pod_metrics (Some cpu_results) (Some mem_results)))
     = sum_list (map (last_sample mem_results) (pod_names cpu_results mem_results))"
proof -
  have cpu: "map PodResourceMetrics.avg_cpu_millicores
        (map (pod_snapshot cpu_results mem_results) (pod_names cpu_results mem_results))
      = map (last_sample cpu_results) (pod_names cpu_results mem_results)"
    by (simp add: pod_snapshot_def)
  have mem: "map PodResourceMetrics.avg_memory_mb
        (map (pod_snapshot cpu_results mem_results) (pod_names cpu_results mem_results))
      = map (last_sample mem_results) (pod_names cpu_results mem_results)"
    by (simp add: pod_snapshot_def)
  note sums = cumulative_fields [of "Some cpu_results" "Some mem_results",
      unfolded collected_pods cpu mem]
  from cumulative_fields [of cpu_response mem_response] collected_pods [of cpu_results mem_results]
    sums
  show ?thesis by blast
qed

lemma two_pods_names:
  "pod_names two_pods_cpu two_pods_mem = [''http-echo-bar-1'', ''http-echo-foo-1'', ''unknown'']"
  by code_simp

lemma two_pods_samples:
  "map (last_sample two_pods_cpu) [''http-echo-bar-1'', ''http-echo-foo-1'', ''unknown''] = [30, 10, 0]"
  "map (last_sample two_pods_mem) [''http-echo-bar-1'', ''http-echo-foo-1'', ''unknown''] = [64, 0, 5]"
  by (simp_all add: last_sample_def last_sample_opt_def two_pods_cpu_def two_pods_mem_def
      item_pod_name_def)

theorem cumulative_is_sum_witness:
  "map pod_name (fst (collect_pod_metrics (Some two_pods_cpu) (Some two_pods_mem)))
     = [''http-echo-bar-1'', ''http-echo-foo-1'', ''unknown'']
   \<and> map PodResourceMetrics.max_cpu_millicores
         (fst (collect_pod_metrics (Some two_pods_cpu) (Some two_pods_mem))) = [30, 10, 0]
   \<and> avg_cpu_millicores (snd (collect_pod_metrics (Some two_pods_cpu) (Some two_pods_mem))) = 40
   \<and> max_cpu_millicores (snd (collect_pod_metrics (Some two_pods_cpu) (Some two_pods_mem))) = 40
   \<and> max_default (map PodResourceMetrics.max_cpu_millicores
         (fst (collect_pod_metrics (Some two_pods_cpu) (Some two_pods_mem)))) 0 = 30
   \<and> map PodResourceMetrics.max_memory_mb
         (fst (collect_pod_metrics (Some two_pods_cpu) (Some two_pods_mem))) = [64, 0, 5]
   \<and> avg_memory_mb (snd (collect_pod_metrics (Some two_pods_cpu) (Some two_pods_mem))) = 69
   \<and> max_memory_mb (snd (collect_pod_metrics (Some two_pods_cpu) (Some two_pods_mem))) = 69
   \<and> max_default (map PodResourceMetrics.max_memory_mb
         (fst (collect_pod_metrics (Some two_pods_cpu) (Some two_pods_mem)))) 0 = 64"
proof -
  note sums = cumulative_is_sum [of "Some two_pods_cpu" "Some two_pods_mem" two_pods_cpu two_pods_mem,
      unfolded two_pods_names two_pods_samples]
  from sums have pods: "fst (collect_pod_metrics (Some two_pods_cpu) (Some two_pods_mem))
      = map (pod_snapshot two_pods_cpu two_pods_mem)
          [''http-echo-bar-1'', ''http-echo-foo-1'', ''unknown'']"
    by blast
  have names: "map pod_name (map (pod_snapshot two_pods_cpu two_pods_mem)
      [''http-echo-bar-1'', ''http-echo-foo-1'', ''unknown''])
      = [''http-echo-bar-1'', ''http-echo-foo-1'', ''unknown'']"
    by (simp add: pod_snapshot_def)
  have cpus: "map PodResourceMetrics.max_cpu_millicores (map (pod_snapshot two_pods_cpu two_pods_mem)
      [''http-echo-bar-1'', ''http-echo-foo-1'', ''unknown'']) = [30, 10, 0]"
    using two_pods_samples(1) by (simp add: pod_snapshot_def)
  have mems: "map PodResourceMetrics.max_memory_mb (map (pod_snapshot two_pods_cpu two_pods_mem)
      [''http-echo-bar-1'', ''http-echo-foo-1'', ''unknown'']) = [64, 0, 5]"
    using two_pods_samples(2) by (simp add: pod_snapshot_def)
  from sums show ?thesis
    unfolding pods names cpus mems by (simp add: max_default_def)
qed

subsection \<open>Threshold extraction\<close>


lemma last_value_Nil: "last_value P [] = None"
  by (simp add: last_value_def)

lemma last_value_Cons:
  "last_value P (m # ms) =
     (case last_value P ms of Some v \<Rightarrow> Some v | None \<Rightarrow> if P (fst m) then Some (snd m) else None)"
  by (simp add: last_value_def split: list.splits)

lemma assign_thresholds_p95:
  "map_of (assign_thresholds ms th) ''p95'' =
     (case last_value (py_in ''duration'') ms of Some v \<Rightarrow> Some v | None \<Rightarrow> map_of th ''p95'')"
proof (induction ms arbitrary: th)
  case Nil
  then show ?case by (simp add: last_value_Nil)
next
  case (Cons m ms)
  obtain key val where m: "m = (key, val)" by (cases m)
  show ?case
    by (simp add: m Cons.IH last_value_Cons map_of_dict_set split: option.splits)
qed

lemma assign_thresholds_error_rate:
  "map_of (assign_thresholds ms th) ''error_rate'' =
     (case last_value (\<lambda>k. py_in ''failed'' k \<and> \<not> py_in ''duration'' k) ms of
        Some v \<Rightarrow> Some v | None \<Rightarrow> map_of th ''error_rate'')"
proof (induction ms arbitrary: th)
  case Nil
  then show ?case by (simp add: last_value_Nil)
next
  case (Cons m ms)
  obtain key val where m: "m = (key, val)" by (cases m)
  show ?case
    by (simp add: m Cons.IH last_value_Cons map_of_dict_set split: option.splits)
qed

text \<open>
  C5, as stated, fails for a key that contains both words: such a key is a latency
  threshold only, so the failure-rate threshold is not the value of the last key that
  contains "failed".
\<close>

theorem last_failed_key_not_recorded:
  "threshold_matches script_failed_duration
     = [(''http_req_failed'', ''rate<0.01''), (''failed_login_duration'', ''p(95)<900'')]
   \<and> last_value (py_in ''failed'') (threshold_matches script_failed_duration) = Some ''p(95)<900''
   \<and> map_of (extract_thresholds script_failed_duration) ''error_rate'' = Some ''rate<0.01''"
  by code_simp

text \<open>
  C5, amended: of the matches of the threshold pattern in textual order, the latency
  threshold is the value of the last one whose key contains "duration", and the
  failure-rate threshold is the value of the last one whose key contains "failed" and
  does not contain "duration"; a kind without such a match is absent.
\<close>

theorem last_match_wins:
  "map_of (extract_thresholds content) ''p95''
     = last_value (py_in ''duration'') (threshold_matches content)
   \<and> map_of (extract_thresholds content) ''error_rate''
     = last_value (\<lambda>k. py_in ''failed'' k \<and> \<not> py_in ''duration'' k) (threshold_matches content)"
  by (simp add: extract_thresholds_def assign_thresholds_p95 assign_thresholds_error_rate
      split: option.splits)

lemma last_match_wins_example:
  "threshold_matches script_three_thresholds
     = [(''http_req_duration'', ''p(95)<500''), (''http_req_failed'', ''rate<0.01''),
        (''group_duration'', ''p(95)<800'')]
   \<and> map_of (extract_thresholds script_three_thresholds) ''p95'' = Some ''p(95)<800''"
  by code_simp


subsection \<open>Alignment of the stage windows\<close>

lemma sum_stage_seconds_Inr:
  "sum_stage_seconds sts acc = Inr D \<Longrightarrow>
     list_all (\<lambda>st. parse_duration_to_seconds (duration st) = Inr (stage_seconds st)) sts
     \<and> D = acc + sum_list (map stage_seconds sts)"
proof (induction sts arbitrary: acc)
  case Nil
  then show ?case by simp
next
  case (Cons st sts)
  from Cons.prems obtain n where n: "parse_duration_to_seconds (duration st) = Inr n"
    and rest: "sum_stage_seconds sts (acc + n) = Inr D"
    by (auto split: sum.splits)
  from n have "stage_seconds st = n"
    by (simp add: stage_seconds_def)
  with n Cons.IH [OF rest] show ?case
    by simp
qed

lemma k6_test_config_total:
  assumes "k6_test_config stage_list target_list threshold_dict = Inr config"
  shows "\<exists>D. sum_stage_seconds (stages config) 0 = Inr D"
proof -
  from assms obtain D where "sum_stage_seconds stage_list 0 = Inr D"
    and "stages config = stage_list"
    by (auto simp: k6_test_config_def split: sum.splits)
  then show ?thesis by simp
qed

lemma dt_timestamp_add_seconds:
  "dt_timestamp (add_seconds dt n) = dt_timestamp dt + real_of_int n"
  by (simp add: dt_timestamp_def add_seconds_def add_divide_distrib)

lemma calculate_vu_stages_sequential:
  "list_all (\<lambda>st. parse_duration_to_seconds (duration st) = Inr (stage_seconds st)) sts \<Longrightarrow>
     calculate_vu_stages dt sts = Inr (sequential_windows (dt_timestamp dt) (plan_of sts))"
  by (induction sts arbitrary: dt)
    (simp_all add: plan_of_def Let_def dt_timestamp_add_seconds)

lemma py_max_Max: "xs \<noteq> [] \<Longrightarrow> py_max xs = Inr (Max (set xs))"
  by (cases xs) (simp_all add: py_max_def Max.set_eq_fold [symmetric])

lemma round_half_even_of_int: "round_half_even (real_of_int k) = k"
  by (simp add: round_half_even_def)

lemma round_half_even_near: "\<bar>real_of_int (round_half_even x) - x\<bar> \<le> 1 / 2"
proof -
  have "real_of_int \<lfloor>x\<rfloor> \<le> x" and "x < real_of_int \<lfloor>x\<rfloor> + 1"
    by linarith+
  then show ?thesis
    by (auto simp: round_half_even_def Let_def abs_le_iff)
qed

lemma fromtimestamp_near: "\<bar>dt_timestamp (fromtimestamp ts) - ts\<bar> \<le> 1 / 2000000"
proof -
  have "\<bar>real_of_int (round_half_even (ts * 1000000)) - ts * 1000000\<bar> \<le> 1 / 2"
    by (rule round_half_even_near)
  then show ?thesis
    by (simp add: dt_timestamp_def fromtimestamp_def abs_le_iff field_simps)
qed

lemma fromtimestamp_exact:
  "ts * 1000000 = real_of_int k \<Longrightarrow> dt_timestamp (fromtimestamp ts) = ts"
  by (simp add: dt_timestamp_def fromtimestamp_def round_half_even_of_int)

text \<open>
  C6: with no detected test time range and a non-empty cumulative CPU series, for a plan
  whose stage durations sum to \<open>D\<close>, the anchor handed to the aligner is the time
  \<open>T - D\<close>, for the latest timestamp \<open>T\<close> of the series, as a datetime; the windows
  follow one another from it, each as long as its stage. A datetime has the resolution
  of a microsecond: the first window starts within half a microsecond of \<open>T - D\<close>, and
  exactly there when \<open>T\<close> is a whole number of microseconds. Every configuration
  \<^verbatim>\<open>parse_k6_script\<close> returns has such a sum (\<open>k6_test_config_total\<close>).
\<close>

theorem fallback_anchor:
  assumes "cumulative_cpu \<noteq> []"
    and "sum_stage_seconds (stages config) 0 = Inr D"
  shows "D = sum_list (map stage_seconds (stages config))
       \<and> main_vu_stages (Some config) None cumulative_cpu
           = calculate_vu_stages
               (fromtimestamp (Max (set (map timestamp cumulative_cpu)) - real_of_int D))
               (stages config)
       \<and> main_vu_stages (Some config) None cumulative_cpu
           = Inr (sequential_windows
               (dt_timestamp (fromtimestamp (Max (set (map timestamp cumulative_cpu))
                  - real_of_int D)))
               (plan_of (stages config)))
       \<and> \<bar>dt_timestamp (fromtimestamp (Max (set (map timestamp cumulative_cpu)) - real_of_int D))
           - (Max (set (map timestamp cumulative_cpu)) - real_of_int D)\<bar> \<le> 1 / 2000000
       \<and> ((\<exists>k. Max (set (map timestamp cumulative_cpu)) * 1000000 = real_of_int k) \<longrightarrow>
            dt_timestamp (fromtimestamp (Max (set (map timestamp cumulative_cpu)) - real_of_int D))
            = Max (set (map timestamp cumulative_cpu)) - real_of_int D)"
proof -
  define T where "T = Max (set (map timestamp cumulative_cpu))"
  have mx: "py_max (map timestamp cumulative_cpu) = Inr T"
    using assms(1) by (simp add: py_max_Max T_def)
  from sum_stage_seconds_Inr [OF assms(2)]
  have parsed: "list_all (\<lambda>st. parse_duration_to_seconds (duration st) = Inr (stage_seconds st))
      (stages config)"
    and total: "D = sum_list (map stage_seconds (stages config))"
    by simp_all
  have main: "main_vu_stages (Some config) None cumulative_cpu
      = calculate_vu_stages (fromtimestamp (T - real_of_int D)) (stages config)"
    using assms by (simp add: main_vu_stages_def mx Let_def)
  have seq: "calculate_vu_stages (fromtimestamp (T - real_of_int D)) (stages config)
      = Inr (sequential_windows (dt_timestamp (fromtimestamp (T - real_of_int D)))
          (plan_of (stages config)))"
    using parsed by (rule calculate_vu_stages_sequential)
  have near: "\<bar>dt_timestamp (fromtimestamp (T - real_of_int D)) - (T - real_of_int D)\<bar>
      \<le> 1 / 2000000"
    by (rule fromtimestamp_near)
  have exact: "dt_timestamp (fromtimestamp (T - real_of_int D)) = T - real_of_int D"
    if "\<exists>k. T * 1000000 = real_of_int k"
  proof -
    from that obtain k where "T * 1000000 = real_of_int k" ..
    then have "(T - real_of_int D) * 1000000 = real_of_int (k - D * 1000000)"
      by (simp add: algebra_simps)
    then show ?thesis by (rule fromtimestamp_exact)
  qed
  from total main seq near exact show ?thesis
    unfolding T_def by simp
qed

lemma three_stage_plan: "plan_of (stages three_stage_config) = [(30, 20), (60, 50), (30, 20)]"
  by code_simp

lemma three_stage_total: "sum_stage_seconds (stages three_stage_config) 0 = Inr 120"
  by code_simp

lemma three_stage_parsed:
  "k6_test_config (stages three_stage_config) [] [] = Inr three_stage_config"
  by code_simp

lemma two_cpu_points_latest: "Max (set (map timestamp two_cpu_points)) = 1120.5"
  by (simp add: two_cpu_points_def)

theorem fallback_anchor_witness:
  "two_cpu_points \<noteq> []
   \<and> k6_test_config (stages three_stage_config) [] [] = Inr three_stage_config
   \<and> sum_stage_seconds (stages three_stage_config) 0 = Inr 120
   \<and> main_vu_stages (Some three_stage_config) None two_cpu_points
       = Inr [\<lparr>start_timestamp = 1000.5, end_timestamp = 1030.5, vus = 20\<rparr>,
              \<lparr>start_timestamp = 1030.5, end_timestamp = 1090.5, vus = 50\<rparr>,
              \<lparr>start_timestamp = 1090.5, end_timestamp = 1120.5, vus = 20\<rparr>]"
proof -
  have ne: "two_cpu_points \<noteq> []"
    by (simp add: two_cpu_points_def)
  have anchor: "dt_timestamp (fromtimestamp (1120.5 - real_of_int 120)) = 1000.5"
    by (simp add: dt_timestamp_def fromtimestamp_def round_half_even_def Let_def)
  note aligned = fallback_anchor [OF ne three_stage_total,
      unfolded two_cpu_points_latest three_stage_plan anchor]
  from aligned [THEN conjunct2, THEN conjunct2, THEN conjunct1] show ?thesis
    by (simp add: ne three_stage_total three_stage_parsed)
qed

subsection \<open>The y axis of the graph\<close>

lemma py_int_times_10: "py_int (real_of_int n * 10) = n * 10"
  using py_int_of_int [of "n * 10"] by simp

lemma round_to_nearest_10:
  "round_to_nearest v 10 = \<lfloor>(v + 9) / 10\<rfloor> * 10"
proof -
  have a: "v + real_of_int 10 - 1 = v + 9"
    by simp
  show ?thesis
    unfolding round_to_nearest_def a by (simp add: py_int_times_10)
qed

lemma max_value_Max:
  "all_values cumulative_points per_pod_data \<noteq> [] \<Longrightarrow>
     max_value cumulative_points per_pod_data = Max (set (all_values cumulative_points per_pod_data))"
  by (cases "all_values cumulative_points per_pod_data")
    (simp_all add: max_value_def Max.set_eq_fold [symmetric])

lemma all_values_nonempty:
  "cumulative_points \<noteq> [] \<Longrightarrow> all_values cumulative_points per_pod_data \<noteq> []"
  by (simp add: all_values_def)

lemma y_max_of_eq:
  "y_max_of cumulative_points per_pod_data =
     (if \<lfloor>(max_value cumulative_points per_pod_data * 1.1 + 9) / 10\<rfloor> = 0 then 10
      else \<lfloor>(max_value cumulative_points per_pod_data * 1.1 + 9) / 10\<rfloor> * 10)"
  by (simp add: y_max_of_def round_to_nearest_10 Let_def)

lemma y_max_bounds:
  fixes m :: real
  assumes "0 \<le> m"
  defines "q \<equiv> \<lfloor>(m * 1.1 + 9) / 10\<rfloor>"
  shows "0 \<le> q" and "m \<le> (if q = 0 then 10 else real_of_int q * 10)"
proof -
  have hi: "(m * 1.1 + 9) / 10 < real_of_int q + 1"
    unfolding q_def by linarith
  from assms(1) have "0 \<le> (m * 1.1 + 9) / 10" by simp
  then show q0: "0 \<le> q" unfolding q_def by simp
  show "m \<le> (if q = 0 then 10 else real_of_int q * 10)"
  proof (cases "q = 0")
    case True
    with hi have "m * 1.1 + 9 < 10" by simp
    with assms(1) True show ?thesis by simp
  next
    case False
    with q0 have "1 \<le> q" by simp
    then have "1 \<le> real_of_int q" by simp
    with hi False show ?thesis by (simp add: field_simps)
  qed
qed

lemma to_svg_y_in_plot:
  assumes "0 \<le> v" and "v \<le> real_of_int y" and "0 < y"
  shows "real_of_int MARGIN_TOP \<le> to_svg_y y v
       \<and> to_svg_y y v \<le> real_of_int (MARGIN_TOP + GRAPH_HEIGHT)"
proof -
  define r where "r = v / real_of_int y"
  from assms have "0 \<le> r" and "r \<le> 1"
    by (simp_all add: r_def)
  moreover have "to_svg_y y v = 270 - r * 220"
    by (simp add: r_def to_svg_y_def MARGIN_TOP_def GRAPH_HEIGHT_def HEIGHT_def MARGIN_BOTTOM_def)
  ultimately show ?thesis
    by (simp add: MARGIN_TOP_def GRAPH_HEIGHT_def HEIGHT_def MARGIN_BOTTOM_def)
qed

lemma floor_plus_nine:
  fixes x :: real
  assumes "x - 10 * real_of_int \<lfloor>x / 10\<rfloor> = 0 \<or> 1 \<le> x - 10 * real_of_int \<lfloor>x / 10\<rfloor>"
  shows "\<lfloor>(x + 9) / 10\<rfloor> = \<lceil>x / 10\<rceil>"
proof -
  define k where "k = \<lfloor>x / 10\<rfloor>"
  have hi: "x / 10 < real_of_int k + 1"
    unfolding k_def by linarith
  from assms consider "x = 10 * real_of_int k" | "1 \<le> x - 10 * real_of_int k"
    unfolding k_def by auto
  then show ?thesis
  proof cases
    case 1
    then have "\<lceil>x / 10\<rceil> = k" by simp
    moreover have "\<lfloor>(x + 9) / 10\<rfloor> = k"
      using 1 by (intro floor_unique) (simp_all add: field_simps)
    ultimately show ?thesis by simp
  next
    case 2
    have "\<lceil>x / 10\<rceil> = k + 1"
      using 2 hi by (intro ceiling_unique) (simp_all add: field_simps)
    moreover have "\<lfloor>(x + 9) / 10\<rfloor> = k + 1"
      using 2 hi by (intro floor_unique) (simp_all add: field_simps)
    ultimately show ?thesis by simp
  qed
qed

text \<open>
  C1, as stated, fails in two ways. A series of negative values gets a negative
  \<open>y_max\<close>. And \<^verbatim>\<open>_round_to_nearest\<close> adds \<open>step - 1\<close> before the floor division,
  which rounds an integer up but not a number less than 1 above a multiple of the step:
  the largest value 9.6 gives 10.56 and the \<open>y_max\<close> 10, where rounding up gives 20.
\<close>

theorem y_max_not_rounded_up:
  "y_max_of [\<lparr>timestamp = 0, point_value = - 20\<rparr>] [] = - 20
   \<and> y_max_of [\<lparr>timestamp = 0, point_value = 9.6\<rparr>] [] = 10
   \<and> max_value [\<lparr>timestamp = 0, point_value = 9.6\<rparr>] [] = 9.6
   \<and> spec_y_max 9.6 = 20
   \<and> to_svg_y (y_max_of [\<lparr>timestamp = 0, point_value = 5\<rparr>]
                  [(''pod'', [\<lparr>timestamp = 0, point_value = - 1\<rparr>])]) (- 1) = 292"
  by (simp add: y_max_of_eq max_value_def all_values_def spec_y_max_def to_svg_y_def
      MARGIN_TOP_def GRAPH_HEIGHT_def HEIGHT_def MARGIN_BOTTOM_def Let_def)

text \<open>
  C1, amended: for a non-empty cumulative series and per-entity series whose values are
  all non-negative, \<open>y_max\<close> is a positive multiple of 10 and at least every value, so
  the vertical position of every point lies within the plot area, bounds included; and
  \<open>y_max\<close> is the largest value scaled by 1.1 and rounded up to the next multiple of 10
  (10 for 0) whenever the scaled value is a multiple of 10 or at least 1 above one.
\<close>

theorem y_axis_scale:
  assumes "cumulative_points \<noteq> []"
    and "\<forall>v \<in> set (all_values cumulative_points per_pod_data). 0 \<le> v"
  shows "0 < y_max_of cumulative_points per_pod_data
       \<and> 10 dvd y_max_of cumulative_points per_pod_data
       \<and> (\<forall>v \<in> set (all_values cumulative_points per_pod_data).
            v \<le> real_of_int (y_max_of cumulative_points per_pod_data)
            \<and> real_of_int MARGIN_TOP \<le> to_svg_y (y_max_of cumulative_points per_pod_data) v
            \<and> to_svg_y (y_max_of cumulative_points per_pod_data) v
                \<le> real_of_int (MARGIN_TOP + GRAPH_HEIGHT))
       \<and> (max_value cumulative_points per_pod_data * 1.1
              - 10 * real_of_int \<lfloor>max_value cumulative_points per_pod_data * 1.1 / 10\<rfloor> = 0
           \<or> 1 \<le> max_value cumulative_points per_pod_data * 1.1
              - 10 * real_of_int \<lfloor>max_value cumulative_points per_pod_data * 1.1 / 10\<rfloor>
           \<longrightarrow> y_max_of cumulative_points per_pod_data
                 = spec_y_max (max_value cumulative_points per_pod_data))"
proof -
  define vs where "vs = all_values cumulative_points per_pod_data"
  define m where "m = max_value cumulative_points per_pod_data"
  define q where "q = \<lfloor>(m * 1.1 + 9) / 10\<rfloor>"
  define y where "y = y_max_of cumulative_points per_pod_data"
  have ne: "vs \<noteq> []"
    using assms(1) by (simp add: vs_def all_values_nonempty)
  have m_Max: "m = Max (set vs)"
    using ne by (simp add: m_def vs_def max_value_Max)
  then have "m \<in> set vs"
    using ne by (metis Max_in List.finite_set set_empty)
  with assms(2) have m0: "0 \<le> m"
    by (simp add: vs_def)
  have y_eq: "y = (if q = 0 then 10 else q * 10)"
    by (simp add: y_def q_def m_def y_max_of_eq)
  note bounds = y_max_bounds [OF m0, folded q_def]
  have q0: "0 \<le> q"
    by (rule bounds(1))
  have m_le: "m \<le> (if q = 0 then 10 else real_of_int q * 10)"
    by (rule bounds(2))
  have pos: "0 < y"
    using q0 by (simp add: y_eq)
  have dvd: "10 dvd y"
    by (simp add: y_eq)
  have m_le_y: "m \<le> real_of_int y"
    using m_le by (cases "q = 0") (simp_all add: y_eq)
  have points: "v \<le> real_of_int y \<and> real_of_int MARGIN_TOP \<le> to_svg_y y v
      \<and> to_svg_y y v \<le> real_of_int (MARGIN_TOP + GRAPH_HEIGHT)" if "v \<in> set vs" for v
  proof -
    from that have "v \<le> m"
      by (simp add: m_Max)
    with m_le_y have le: "v \<le> real_of_int y" by simp
    from that assms(2) have "0 \<le> v"
      by (simp add: vs_def)
    with le pos show ?thesis
      using to_svg_y_in_plot by blast
  qed
  have rounded: "y = spec_y_max m"
    if "m * 1.1 - 10 * real_of_int \<lfloor>m * 1.1 / 10\<rfloor> = 0
        \<or> 1 \<le> m * 1.1 - 10 * real_of_int \<lfloor>m * 1.1 / 10\<rfloor>"
  proof -
    from floor_plus_nine [OF that] have "q = \<lceil>m * 1.1 / 10\<rceil>"
      by (simp add: q_def)
    then show ?thesis
      by (simp add: y_eq spec_y_max_def Let_def)
  qed
  from pos dvd points rounded show ?thesis
    unfolding vs_def m_def y_def by blast
qed

lemma sample_values_nonneg: "\<forall>v \<in> set (all_values sample_cumulative sample_pods). 0 \<le> v"
  by (simp add: all_values_def sample_cumulative_def sample_pods_def)

lemma sample_y_max: "y_max_of sample_cumulative sample_pods = 50"
  by (simp add: y_max_of_eq max_value_def all_values_def sample_cumulative_def sample_pods_def)

theorem y_axis_scale_witness:
  "sample_cumulative \<noteq> []
   \<and> list_all (\<lambda>v. 0 \<le> v) (all_values sample_cumulative sample_pods)
   \<and> y_max_of sample_cumulative sample_pods = 50
   \<and> 0 < y_max_of sample_cumulative sample_pods
   \<and> 10 dvd y_max_of sample_cumulative sample_pods
   \<and> real_of_int MARGIN_TOP \<le> to_svg_y (y_max_of sample_cumulative sample_pods) 40
   \<and> to_svg_y (y_max_of sample_cumulative sample_pods) 40 \<le> real_of_int (MARGIN_TOP + GRAPH_HEIGHT)
   \<and> spec_y_max (max_value sample_cumulative sample_pods) = 50"
proof -
  have ne: "sample_cumulative \<noteq> []"
    by (simp add: sample_cumulative_def)
  note scale = y_axis_scale [OF ne sample_values_nonneg]
  have mem: "40 \<in> set (all_values sample_cumulative sample_pods)"
    by (simp add: all_values_def sample_cumulative_def sample_pods_def)
  have m: "max_value sample_cumulative sample_pods = 40"
    by (simp add: max_value_def all_values_def sample_cumulative_def sample_pods_def)
  have whole: "max_value sample_cumulative sample_pods * 1.1
      - 10 * real_of_int \<lfloor>max_value sample_cumulative sample_pods * 1.1 / 10\<rfloor> = 4"
    by (simp add: m)
  from scale mem have in_plot:
    "real_of_int MARGIN_TOP \<le> to_svg_y (y_max_of sample_cumulative sample_pods) 40
     \<and> to_svg_y (y_max_of sample_cumulative sample_pods) 40 \<le> real_of_int (MARGIN_TOP + GRAPH_HEIGHT)"
    by blast
  from scale whole have "y_max_of sample_cumulative sample_pods
      = spec_y_max (max_value sample_cumulative sample_pods)"
    by simp
  with scale in_plot ne sample_values_nonneg sample_y_max show ?thesis
    by (simp add: list_all_iff)
qed

subsection \<open>The legend\<close>

lemma sort_nonempty_iff: "sort xs \<noteq> [] \<longleftrightarrow> xs \<noteq> []"
  by (metis length_sort length_0_conv)

lemma foo_pods_nonempty_iff:
  "foo_pods per_pod_data \<noteq> [] \<longleftrightarrow> (\<exists>p \<in> set (map fst per_pod_data). py_in ''foo'' (py_lower p))"
  by (simp add: foo_pods_def sort_nonempty_iff filter_empty_conv)

lemma bar_pods_nonempty_iff:
  "bar_pods per_pod_data \<noteq> [] \<longleftrightarrow> (\<exists>p \<in> set (map fst per_pod_data). py_in ''bar'' (py_lower p))"
  by (simp add: bar_pods_def sort_nonempty_iff filter_empty_conv)

text \<open>
  C8, as stated, fails for entities whose names have neither marker: they are the third
  group of the renderer, drawn with the first palette, and the legend has no entry for
  it. For the one entity \<open>baz-1\<close> one group is present and the legend has the entry of
  the cumulative series alone.
\<close>

theorem unmarked_group_without_entry:
  "filter (\<lambda>group. fst group \<noteq> []) (pod_groups [(''baz-1'', [\<lparr>timestamp = 0, point_value = 1\<rparr>])])
     = [([''baz-1''], FOO_COLORS)]
   \<and> legend_items [(''baz-1'', [\<lparr>timestamp = 0, point_value = 1\<rparr>])]
     = [(''Cumulative'', CUMULATIVE_COLOR)]
   \<and> length (legend_items [(''baz-1'', [\<lparr>timestamp = 0, point_value = 1\<rparr>])])
     \<noteq> 1 + length (filter (\<lambda>group. fst group \<noteq> [])
                      (pod_groups [(''baz-1'', [\<lparr>timestamp = 0, point_value = 1\<rparr>])]))"
  by code_simp

text \<open>
  C8, amended: for a non-empty cumulative series the image ends with its legend, which
  has the entry of the cumulative series, then the entry \<open>foo pods\<close> in the first colour
  of the first palette exactly when the name of some entity contains \<open>foo\<close>, then the
  entry \<open>bar pods\<close> in the first colour of the second palette exactly when the name of
  some entity contains \<open>bar\<close>, letter case ignored; entities with neither marker have
  no entry.
\<close>

theorem legend_entries:
  assumes "cumulative_points \<noteq> []"
  shows "generate_resource_graph cumulative_points per_pod_data vu_stages title y_label
           = concat (graph_body cumulative_points per_pod_data vu_stages title y_label)
             @ concat (legend_parts MARGIN_LEFT (legend_items per_pod_data)) @ ''</svg>''
       \<and> legend_items per_pod_data
           = (''Cumulative'', CUMULATIVE_COLOR)
             # (if \<exists>p \<in> set (map fst per_pod_data). py_in ''foo'' (py_lower p)
                then [(''foo pods'', hd FOO_COLORS)] else [])
             @ (if \<exists>p \<in> set (map fst per_pod_data). py_in ''bar'' (py_lower p)
                then [(''bar pods'', hd BAR_COLORS)] else [])"
proof
  show "generate_resource_graph cumulative_points per_pod_data vu_stages title y_label
           = concat (graph_body cumulative_points per_pod_data vu_stages title y_label)
             @ concat (legend_parts MARGIN_LEFT (legend_items per_pod_data)) @ ''</svg>''"
    using assms by (simp add: generate_resource_graph_def)
  have "FOO_COLORS ! 0 = hd FOO_COLORS" and "BAR_COLORS ! 0 = hd BAR_COLORS"
    by (simp_all add: FOO_COLORS_def BAR_COLORS_def)
  then show "legend_items per_pod_data
           = (''Cumulative'', CUMULATIVE_COLOR)
             # (if \<exists>p \<in> set (map fst per_pod_data). py_in ''foo'' (py_lower p)
                then [(''foo pods'', hd FOO_COLORS)] else [])
             @ (if \<exists>p \<in> set (map fst per_pod_data). py_in ''bar'' (py_lower p)
                then [(''bar pods'', hd BAR_COLORS)] else [])"
    unfolding legend_items_def foo_pods_nonempty_iff bar_pods_nonempty_iff by simp
qed

lemma sample_legend:
  "legend_items sample_pods
     = [(''Cumulative'', ''#3b82f6''), (''foo pods'', ''#8b5cf6''), (''bar pods'', ''#22c55e'')]"
  by code_simp

theorem legend_entries_witness:
  "sample_cumulative \<noteq> []
   \<and> generate_resource_graph sample_cumulative sample_pods sample_stages ''CPU'' ''m''
       = concat (graph_body sample_cumulative sample_pods sample_stages ''CPU'' ''m'')
         @ concat (legend_parts MARGIN_LEFT
             [(''Cumulative'', ''#3b82f6''), (''foo pods'', ''#8b5cf6''), (''bar pods'', ''#22c55e'')])
         @ ''</svg>''"
proof -
  have ne: "sample_cumulative \<noteq> []"
    by (simp add: sample_cumulative_def)
  from legend_entries [OF ne, of sample_pods sample_stages "''CPU''" "''m''"] show ?thesis
    by (simp only: sample_legend ne simp_thms)
qed

subsection \<open>The renderer is a function of its inputs\<close>

lemma keys_same:
  assumes "distinct (map fst a)" and "distinct (map fst b)" and "map_of a = map_of b"
  shows "set a = set b" and "set (map fst a) = set (map fst b)"
proof -
  show "set a = set b"
    using assms by (simp add: map_of_inject_set)
  then show "set (map fst a) = set (map fst b)"
    by simp
qed

lemma sort_filter_keys:
  assumes "distinct (map fst a)" and "distinct (map fst b)" and "map_of a = map_of b"
  shows "sort (filter P (map fst a)) = sort (filter P (map fst b))"
proof (rule sort_distinct_set)
  show "distinct (filter P (map fst a))" and "distinct (filter P (map fst b))"
    using assms(1,2) by simp_all
  show "set (filter P (map fst a)) = set (filter P (map fst b))"
    using keys_same(2) [OF assms] by simp
qed

lemma pod_groups_same:
  assumes "distinct (map fst a)" and "distinct (map fst b)" and "map_of a = map_of b"
  shows "pod_groups a = pod_groups b"
proof -
  have foo: "foo_pods a = foo_pods b"
    unfolding foo_pods_def by (rule sort_filter_keys [OF assms])
  have bar: "bar_pods a = bar_pods b"
    unfolding bar_pods_def by (rule sort_filter_keys [OF assms])
  have "other_pods a = other_pods b"
    unfolding other_pods_def foo bar by (rule sort_filter_keys [OF assms])
  with foo bar show ?thesis
    by (simp add: pod_groups_def)
qed

lemma legend_items_same:
  assumes "distinct (map fst a)" and "distinct (map fst b)" and "map_of a = map_of b"
  shows "legend_items a = legend_items b"
proof -
  have "foo_pods a = foo_pods b"
    unfolding foo_pods_def by (rule sort_filter_keys [OF assms])
  moreover have "bar_pods a = bar_pods b"
    unfolding bar_pods_def by (rule sort_filter_keys [OF assms])
  ultimately show ?thesis
    by (simp add: legend_items_def)
qed

lemma max_value_set:
  "max_value cumulative_points per_pod_data =
     (if all_values cumulative_points per_pod_data = [] then 10
      else Max (set (all_values cumulative_points per_pod_data)))"
  by (simp add: max_value_Max) (simp add: max_value_def)

lemma set_all_values:
  "set (all_values cumulative_points per_pod_data) =
     point_value ` set cumulative_points \<union> (\<Union>entry \<in> set per_pod_data. point_value ` set (snd entry))"
  by (auto simp: all_values_def)

lemma max_value_same:
  assumes "distinct (map fst a)" and "distinct (map fst b)" and "map_of a = map_of b"
  shows "max_value cumulative_points a = max_value cumulative_points b"
proof -
  have "set (all_values cumulative_points a) = set (all_values cumulative_points b)"
    by (simp add: set_all_values keys_same(1) [OF assms])
  moreover from this have "all_values cumulative_points a = [] \<longleftrightarrow> all_values cumulative_points b = []"
    by (metis set_empty)
  ultimately show ?thesis
    by (simp add: max_value_set)
qed

lemma graph_body_same:
  assumes "distinct (map fst a)" and "distinct (map fst b)" and "map_of a = map_of b"
  shows "graph_body cumulative_points a vu_stages title y_label
       = graph_body cumulative_points b vu_stages title y_label"
proof -
  have "y_max_of cumulative_points a = y_max_of cumulative_points b"
    by (simp add: y_max_of_def max_value_same [OF assms])
  moreover have "pod_lines min_time time_range y a = pod_lines min_time time_range y b"
    for min_time time_range y
    by (simp add: pod_lines_def pod_groups_same [OF assms] assms(3))
  ultimately show ?thesis
    by (simp add: graph_body_def Let_def)
qed

text \<open>
  C9: two calls with the same cumulative points, per-entity data, stage windows, title
  and axis label return the same string. The renderer is a function of its arguments,
  which read no clock and no other state; the per-entity data of the two calls may even
  be the same dictionary built in different orders of insertion.
\<close>

theorem renderer_deterministic:
  assumes "cumulative_points' = cumulative_points"
    and "distinct (map fst per_pod_data)" and "distinct (map fst per_pod_data')"
    and "map_of per_pod_data' = map_of per_pod_data"
    and "vu_stages' = vu_stages" and "title' = title" and "y_label' = y_label"
  shows "generate_resource_graph cumulative_points' per_pod_data' vu_stages' title' y_label'
       = generate_resource_graph cumulative_points per_pod_data vu_stages title y_label"
proof -
  note same = assms(3) assms(2) assms(4)
  show ?thesis
    unfolding assms(1,5,6,7) generate_resource_graph_def
    by (simp add: graph_body_same [OF same] legend_items_same [OF same])
qed

theorem renderer_deterministic_witness:
  "distinct (map fst sample_pods) \<and> distinct (map fst sample_pods_reordered)
   \<and> map_of sample_pods_reordered = map_of sample_pods
   \<and> sample_pods_reordered \<noteq> sample_pods
   \<and> generate_resource_graph sample_cumulative sample_pods_reordered sample_stages ''CPU'' ''m''
     = generate_resource_graph sample_cumulative sample_pods sample_stages ''CPU'' ''m''"
proof -
  have d: "distinct (map fst sample_pods)" and d': "distinct (map fst sample_pods_reordered)"
    by (simp_all add: sample_pods_def sample_pods_reordered_def)
  have "set sample_pods_reordered = set sample_pods"
    by (auto simp: sample_pods_def sample_pods_reordered_def)
  with d d' have m: "map_of sample_pods_reordered = map_of sample_pods"
    by (simp add: map_of_inject_set)
  have n: "sample_pods_reordered \<noteq> sample_pods"
    by (simp add: sample_pods_def sample_pods_reordered_def)
  from renderer_deterministic [OF refl d d' m refl refl refl] d d' m n show ?thesis
    by blast
qed

end
